theory Spec2Isabelle
  imports Main
begin

section \<open>The Python values the program handles\<close>

text \<open>
  The program (\<^verbatim>\<open>generatePDFs.py\<close>) works on decoded JSON: \<^verbatim>\<open>None\<close>, booleans,
  numbers, strings, lists and dictionaries with string keys. A dictionary is an
  association list in insertion order; a dictionary that Python can build has distinct
  keys, and a lookup reads the first entry of a key.

  A string is a list of code points. \<^typ>\<open>char\<close> has 256 values, so the model covers the
  code points 0 to 255 (Latin-1) and classifies them as Python does.

  A float is represented by the two things the program observes of it: whether it is
  non-zero (its truth value) and the text \<^verbatim>\<open>str\<close> gives for it.
\<close>

datatype pyval =
    PNone
  | PBool bool
  | PInt int
  | PFloat bool string
  | PStr string
  | PList "pyval list"
  | PDict "(string \<times> pyval) list"

text \<open>The exceptions the modelled code can raise. \<^verbatim>\<open>die\<close> raises \<^verbatim>\<open>SystemExit\<close>.\<close>

datatype pyerr =
    KeyError
  | TypeError
  | AttributeError
  | JSONDecodeError
  | SystemExit string
  | External string

type_synonym 'a result = "pyerr + 'a"

definition die :: "string \<Rightarrow> 'a result" where
  "die msg = Inl (SystemExit (''ERROR: '' @ msg))"

text \<open>Truth value of a Python object (\<^verbatim>\<open>if v\<close>, \<^verbatim>\<open>v or d\<close>, \<^verbatim>\<open>not v\<close>).\<close>

fun truthy :: "pyval \<Rightarrow> bool" where
  "truthy PNone = False"
| "truthy (PBool b) = b"
| "truthy (PInt n) = (n \<noteq> 0)"
| "truthy (PFloat nz r) = nz"
| "truthy (PStr s) = (s \<noteq> [])"
| "truthy (PList xs) = (xs \<noteq> [])"
| "truthy (PDict kvs) = (kvs \<noteq> [])"

text \<open>\<^verbatim>\<open>a or b\<close>\<close>

definition py_or :: "pyval \<Rightarrow> pyval \<Rightarrow> pyval" where
  "py_or a b = (if truthy a then a else b)"

text \<open>
  \<^verbatim>\<open>d.get(k)\<close> and \<^verbatim>\<open>d.get(k, default)\<close> on a dictionary with string keys. A key that
  is not a string is never found; a key that is a list or a dictionary is unhashable.
\<close>

definition dict_get :: "(string \<times> pyval) list \<Rightarrow> string \<Rightarrow> pyval \<Rightarrow> pyval" where
  "dict_get d k dflt = (case map_of d k of None \<Rightarrow> dflt | Some v \<Rightarrow> v)"

fun py_get :: "pyval \<Rightarrow> pyval \<Rightarrow> pyval \<Rightarrow> pyval result" where
  "py_get (PDict d) (PStr k) dflt = Inr (dict_get d k dflt)"
| "py_get (PDict d) (PList k) dflt = Inl TypeError"
| "py_get (PDict d) (PDict k) dflt = Inl TypeError"
| "py_get (PDict d) k dflt = Inr dflt"
| "py_get v k dflt = Inl AttributeError"

text \<open>\<^verbatim>\<open>v[k]\<close> with a string key \<open>k\<close>: only a dictionary that has the key answers.\<close>

fun py_item :: "pyval \<Rightarrow> string \<Rightarrow> pyval result" where
  "py_item (PDict d) k = (case map_of d k of None \<Rightarrow> Inl KeyError | Some v \<Rightarrow> Inr v)"
| "py_item v k = Inl TypeError"

text \<open>
  Iteration (\<^verbatim>\<open>for x in v\<close>): a list gives its elements, a dictionary its keys, a string
  its characters; nothing else is iterable.
\<close>

fun py_iter :: "pyval \<Rightarrow> pyval list result" where
  "py_iter (PList xs) = Inr xs"
| "py_iter (PDict kvs) = Inr (map (\<lambda>kv. PStr (fst kv)) kvs)"
| "py_iter (PStr s) = Inr (map (\<lambda>c. PStr [c]) s)"
| "py_iter v = Inl TypeError"

text \<open>Running a fallible function over a list, stopping at the first exception.\<close>

fun map_result :: "('a \<Rightarrow> 'b result) \<Rightarrow> 'a list \<Rightarrow> 'b list result" where
  "map_result f [] = Inr []"
| "map_result f (x # xs) =
     (case f x of Inl e \<Rightarrow> Inl e
      | Inr y \<Rightarrow> (case map_result f xs of Inl e \<Rightarrow> Inl e | Inr ys \<Rightarrow> Inr (y # ys)))"

text \<open>
  \<^verbatim>\<open>sep.join(items)\<close>: every item has to be a string. The generator that feeds
  \<^verbatim>\<open>join\<close> is run to its end before the items are looked at.
\<close>

fun as_str :: "pyval \<Rightarrow> string result" where
  "as_str (PStr s) = Inr s"
| "as_str v = Inl TypeError"

fun intersperse :: "string \<Rightarrow> string list \<Rightarrow> string" where
  "intersperse sep [] = []"
| "intersperse sep [s] = s"
| "intersperse sep (s # t # ts) = s @ sep @ intersperse sep (t # ts)"

definition py_join :: "string \<Rightarrow> pyval list \<Rightarrow> pyval result" where
  "py_join sep items =
     (case map_result as_str items of Inl e \<Rightarrow> Inl e
      | Inr ss \<Rightarrow> Inr (PStr (intersperse sep ss)))"

subsection \<open>\<^verbatim>\<open>str\<close> and \<^verbatim>\<open>repr\<close>\<close>

definition digit_char :: "nat \<Rightarrow> char" where
  "digit_char d = ''0123456789abcdef'' ! d"

fun str_nat :: "nat \<Rightarrow> string" where
  "str_nat n = (if n < 10 then [digit_char n] else str_nat (n div 10) @ [digit_char (n mod 10)])"

declare str_nat.simps [simp del]

definition str_int :: "int \<Rightarrow> string" where
  "str_int i = (if i < 0 then CHR ''-'' # str_nat (nat (- i)) else str_nat (nat i))"

definition code_point :: "char \<Rightarrow> nat" where
  "code_point c = of_char c"

text \<open>
  \<^verbatim>\<open>str.isprintable\<close> on the code points 0 to 255: the controls, the no-break space
  and the soft hyphen are not printable.
\<close>

definition is_printable :: "char \<Rightarrow> bool" where
  "is_printable c =
     (let n = code_point c
      in (32 \<le> n \<and> n < 127) \<or> (161 \<le> n \<and> n \<noteq> 173))"

definition repr_char :: "char \<Rightarrow> char \<Rightarrow> string" where
  "repr_char quote c =
     (if c = quote \<or> c = CHR 0x5C then [CHR 0x5C, c]
      else if c = CHR 0x09 then [CHR 0x5C, CHR ''t'']
      else if c = CHR 0x0A then [CHR 0x5C, CHR ''n'']
      else if c = CHR 0x0D then [CHR 0x5C, CHR ''r'']
      else if is_printable c then [c]
      else [CHR 0x5C, CHR ''x'', digit_char (code_point c div 16), digit_char (code_point c mod 16)])"

definition repr_str :: "string \<Rightarrow> string" where
  "repr_str s =
     (let quote = (if CHR 0x27 \<in> set s \<and> CHR 0x22 \<notin> set s then CHR 0x22 else CHR 0x27)
      in [quote] @ concat (map (repr_char quote) s) @ [quote])"

fun py_repr :: "pyval \<Rightarrow> string" where
  "py_repr PNone = ''None''"
| "py_repr (PBool b) = (if b then ''True'' else ''False'')"
| "py_repr (PInt n) = str_int n"
| "py_repr (PFloat nz r) = r"
| "py_repr (PStr s) = repr_str s"
| "py_repr (PList xs) = ''['' @ intersperse '', '' (map py_repr xs) @ '']''"
| "py_repr (PDict kvs) =
     ''{'' @ intersperse '', '' (map (\<lambda>kv. repr_str (fst kv) @ '': '' @ py_repr (snd kv)) kvs) @ ''}''"

definition py_str :: "pyval \<Rightarrow> string" where
  "py_str v = (case v of PStr s \<Rightarrow> s | _ \<Rightarrow> py_repr v)"

text \<open>Sequencing of fallible steps: the first exception ends the computation.\<close>

definition bind_r :: "'a result \<Rightarrow> ('a \<Rightarrow> 'b result) \<Rightarrow> 'b result" where
  "bind_r m f = (case m of Inl e \<Rightarrow> Inl e | Inr x \<Rightarrow> f x)"

section \<open>Property normalisation: \<^verbatim>\<open>notion_prop_to_str\<close>\<close>

text \<open>\<^verbatim>\<open>rich_plain_text(rich)\<close>\<close>

definition rich_plain_text :: "pyval \<Rightarrow> pyval result" where
  "rich_plain_text rich =
     bind_r (py_iter (py_or rich (PList []))) (\<lambda>xs.
     bind_r (map_result (\<lambda>x. py_get x (PStr ''plain_text'') (PStr '''')) xs) (py_join ''''))"

text \<open>
  \<^verbatim>\<open>notion_prop_to_str(prop)\<close>. The value returned is whatever Python object the branch
  yields; the annotation \<^verbatim>\<open>-> str\<close> is not enforced at run time.
\<close>

definition notion_prop_to_str :: "pyval \<Rightarrow> pyval result" where
  "notion_prop_to_str prop =
     bind_r (py_get prop (PStr ''type'') PNone) (\<lambda>t.
       if \<not> truthy t then Inr (PStr '''')
       else bind_r (py_get prop t PNone) (\<lambda>v.
         if t = PStr ''title'' then rich_plain_text v
         else if t = PStr ''rich_text'' then rich_plain_text v
         else if t = PStr ''number'' then Inr (PStr (if v = PNone then '''' else py_str v))
         else if t = PStr ''checkbox'' then Inr (PStr (if truthy v then ''TRUE'' else ''FALSE''))
         else if t = PStr ''select'' then (if truthy v then py_item v ''name'' else Inr (PStr ''''))
         else if t = PStr ''multi_select'' then
           bind_r (py_iter (py_or v (PList []))) (\<lambda>xs.
           bind_r (map_result (\<lambda>x. py_item x ''name'') xs) (py_join '', ''))
         else if t = PStr ''date'' then
           (if truthy v then py_get v (PStr ''start'') (PStr '''') else Inr (PStr ''''))
         else if t \<in> set [PStr ''email'', PStr ''phone_number'', PStr ''url''] then
           Inr (py_or v (PStr ''''))
         else if t = PStr ''people'' then
           bind_r (py_iter (py_or v (PList []))) (\<lambda>ps.
           bind_r (map_result (\<lambda>p. bind_r (py_get p (PStr ''name'') PNone)
                                       (\<lambda>n. Inr (py_or n (PStr '''')))) ps) (py_join '', ''))
         else if t = PStr ''relation'' then
           bind_r (py_iter (py_or v (PList []))) (\<lambda>rs.
           bind_r (map_result (\<lambda>r. py_get r (PStr ''id'') (PStr '''')) rs) (py_join '', ''))
         else if t = PStr ''formula'' then
           bind_r (py_get (py_or v (PDict [])) (PStr ''type'') PNone) (\<lambda>ft.
             if \<not> truthy ft then Inr (PStr '''')
             else bind_r (py_get (py_or v (PDict [])) ft PNone) (\<lambda>x.
               Inr (PStr (py_str (py_or x (PStr ''''))))))
         else if t = PStr ''status'' then (if truthy v then py_item v ''name'' else Inr (PStr ''''))
         else Inr (PStr (if v \<noteq> PNone then py_str v else ''''))))"

section \<open>Strings: whitespace, word characters, \<^verbatim>\<open>slugify\<close>\<close>

text \<open>
  \<^verbatim>\<open>str.strip()\<close> and the regular expression class \<^verbatim>\<open>\s\<close> use the same whitespace;
  \<^verbatim>\<open>\w\<close> (with \<^verbatim>\<open>re.UNICODE\<close>) is a letter, a digit or another numeric character, or
  the underscore. Both are given here for the code points 0 to 255.
\<close>

definition is_space :: "char \<Rightarrow> bool" where
  "is_space c =
     (let n = code_point c
      in (9 \<le> n \<and> n \<le> 13) \<or> (28 \<le> n \<and> n \<le> 32) \<or> n = 133 \<or> n = 160)"

definition is_word :: "char \<Rightarrow> bool" where
  "is_word c =
     (let n = code_point c
      in (48 \<le> n \<and> n \<le> 57) \<or> (65 \<le> n \<and> n \<le> 90) \<or> n = 95 \<or> (97 \<le> n \<and> n \<le> 122)
         \<or> n = 170 \<or> n = 178 \<or> n = 179 \<or> n = 181 \<or> n = 185 \<or> n = 186
         \<or> (188 \<le> n \<and> n \<le> 190) \<or> (192 \<le> n \<and> n \<le> 214) \<or> (216 \<le> n \<and> n \<le> 246)
         \<or> 248 \<le> n)"

definition py_strip :: "string \<Rightarrow> string" where
  "py_strip s = rev (dropWhile is_space (rev (dropWhile is_space s)))"

text \<open>
  \<^verbatim>\<open>re.sub(r"[C]+", rep, s)\<close> for a character class \<open>C\<close>: every maximal run of
  characters of the class is replaced by \<open>rep\<close>.
\<close>

function sub_runs :: "(char \<Rightarrow> bool) \<Rightarrow> string \<Rightarrow> string \<Rightarrow> string" where
  "sub_runs P rep [] = []"
| "sub_runs P rep (c # cs) =
     (if P c then rep @ sub_runs P rep (dropWhile P cs) else c # sub_runs P rep cs)"
  by pat_completeness auto
termination
  by (relation "measure (\<lambda>(P, rep, s). length s)") (auto simp: length_dropWhile_le less_Suc_eq_le)

text \<open>The class \<^verbatim>\<open>[\w\- ]\<close> of the first substitution of \<^verbatim>\<open>slugify\<close>.\<close>

definition slug_allowed :: "char \<Rightarrow> bool" where
  "slug_allowed c = (is_word c \<or> c = CHR ''-'' \<or> c = CHR '' '')"

definition slugify :: "string \<Rightarrow> string" where
  "slugify s0 =
     (let s1 = py_strip s0;
          s2 = sub_runs (\<lambda>c. \<not> slug_allowed c) '''' s1;
          s3 = sub_runs is_space ''_'' s2
      in if s3 \<noteq> [] then take 120 s3 else ''document'')"

section \<open>Placeholders: \<^verbatim>\<open>row_to_placeholder_map\<close>\<close>

text \<open>\<^verbatim>\<open>d[k] = v\<close>: a key already there keeps its place, a new key goes to the end.\<close>

definition dict_set :: "(string \<times> 'v) list \<Rightarrow> string \<Rightarrow> 'v \<Rightarrow> (string \<times> 'v) list" where
  "dict_set d k v =
     (if k \<in> set (map fst d) then map (\<lambda>kv. if fst kv = k then (k, v) else kv) d
      else d @ [(k, v)])"

text \<open>\<^verbatim>\<open>v.items()\<close>\<close>

fun py_items :: "pyval \<Rightarrow> (string \<times> pyval) list result" where
  "py_items (PDict d) = Inr d"
| "py_items v = Inl AttributeError"

text \<open>The f-string \<^verbatim>\<open>f"{{{{{col_name}}}}}"\<close>: two braces, the name, two braces.\<close>

definition placeholder :: "string \<Rightarrow> string" where
  "placeholder col_name = ''{{'' @ col_name @ ''}}''"

fun fill_placeholders ::
  "(string \<times> pyval) list \<Rightarrow> (string \<times> pyval) list \<Rightarrow> (string \<times> pyval) list result" where
  "fill_placeholders repl [] = Inr repl"
| "fill_placeholders repl (item # items) =
     bind_r (notion_prop_to_str (snd item)) (\<lambda>v.
       fill_placeholders (dict_set repl (placeholder (fst item)) v) items)"

definition row_to_placeholder_map :: "pyval \<Rightarrow> (string \<times> pyval) list result" where
  "row_to_placeholder_map page =
     bind_r (py_get page (PStr ''properties'') (PDict [])) (\<lambda>props.
     bind_r (py_items props) (fill_placeholders []))"

section \<open>Configuration from the environment\<close>

text \<open>
  The module reads its settings once, when it is loaded. The environment is a map from
  variable names to values; \<^verbatim>\<open>os.getenv(name, default)\<close> gives the default for a
  variable that is not set.
\<close>

definition getenv :: "(string \<rightharpoonup> string) \<Rightarrow> string \<Rightarrow> string \<Rightarrow> string" where
  "getenv environ name dflt = (case environ name of None \<Rightarrow> dflt | Some v \<Rightarrow> v)"

text \<open>\<^verbatim>\<open>str.lower()\<close> on the code points 0 to 255.\<close>

definition lower_char :: "char \<Rightarrow> char" where
  "lower_char c =
     (let n = code_point c
      in if (65 \<le> n \<and> n \<le> 90) \<or> (192 \<le> n \<and> n \<le> 222 \<and> n \<noteq> 215) then char_of (n + 32) else c)"

definition py_lower :: "string \<Rightarrow> string" where
  "py_lower s = map lower_char s"

text \<open>
  \<^verbatim>\<open>pathlib.Path\<close> on a POSIX system. A path is a root (empty, one slash, or two
  slashes when the text starts with exactly two) and its components; empty components
  and single dots are dropped when the text is parsed. Its text is the root followed by
  the components joined with slashes, or a dot when there is neither.
\<close>

datatype path = Path string "string list"

fun split_slash :: "string \<Rightarrow> string list" where
  "split_slash [] = [[]]"
| "split_slash (c # cs) =
     (if c = CHR ''/'' then [] # split_slash cs
      else (case split_slash cs of [] \<Rightarrow> [[c]] | part # parts \<Rightarrow> (c # part) # parts))"

definition py_path :: "string \<Rightarrow> path" where
  "py_path s =
     Path (if take 2 s = ''//'' \<and> take 3 s \<noteq> ''///'' then ''//''
           else if take 1 s = ''/'' then ''/'' else '''')
          (filter (\<lambda>part. part \<noteq> [] \<and> part \<noteq> ''.'') (split_slash s))"

fun path_str :: "path \<Rightarrow> string" where
  "path_str (Path rt parts) = (if rt = [] \<and> parts = [] then ''.'' else rt @ intersperse ''/'' parts)"

text \<open>\<^verbatim>\<open>p / name\<close>: an absolute right-hand side replaces the left one.\<close>

fun path_div :: "path \<Rightarrow> string \<Rightarrow> path" where
  "path_div (Path rt parts) name =
     (case py_path name of
        Path rt' parts' \<Rightarrow> if rt' \<noteq> [] then Path rt' parts' else Path rt (parts @ parts'))"

text \<open>\<^verbatim>\<open>p.name\<close>\<close>

fun path_name :: "path \<Rightarrow> string" where
  "path_name (Path rt parts) = (if parts = [] then [] else last parts)"

record config =
  NOTION_TOKEN :: string
  NOTION_DATABASE_ID :: string
  GOOGLE_TEMPLATE_DOC_ID :: string
  GOOGLE_TOKEN_JSON :: string
  NOTION_VERSION :: string
  OUTPUT_DIR :: path
  DELETE_INTERMEDIATE_DOCS :: bool

definition SCOPES :: "string list" where
  "SCOPES = [''https://www.googleapis.com/auth/documents'', ''https://www.googleapis.com/auth/drive'']"

definition load_config :: "(string \<rightharpoonup> string) \<Rightarrow> config" where
  "load_config environ =
     \<lparr> NOTION_TOKEN = py_strip (getenv environ ''NOTION_TOKEN'' ''''),
       NOTION_DATABASE_ID = py_strip (getenv environ ''NOTION_DATABASE_ID'' ''''),
       GOOGLE_TEMPLATE_DOC_ID = py_strip (getenv environ ''GOOGLE_TEMPLATE_DOC_ID'' ''''),
       GOOGLE_TOKEN_JSON = py_strip (getenv environ ''GOOGLE_TOKEN_JSON'' ''''),
       NOTION_VERSION = py_strip (getenv environ ''NOTION_VERSION'' ''2022-06-28''),
       OUTPUT_DIR = py_path (getenv environ ''OUTPUT_DIR'' ''out_pdfs''),
       DELETE_INTERMEDIATE_DOCS =
         (py_lower (getenv environ ''DELETE_INTERMEDIATE_DOCS'' ''true'') \<in> set [''1'', ''true'', ''yes'']) \<rparr>"

section \<open>Fetching the rows: \<^verbatim>\<open>fetch_all_notion_rows\<close>\<close>

text \<open>
  The service is outside the program. A run is checked against a script: the list of
  what the successive \<^verbatim>\<open>client.post\<close> calls give, each either an exception or a
  response with its status code, its text and what \<^verbatim>\<open>r.json()\<close> gives. The model
  returns the outcome together with the requests sent and the part of the script that was
  not consumed; it returns \<open>None\<close> when the script ends while the loop still asks for
  a page.
\<close>

record response =
  status_code :: int
  resp_text :: string
  json :: "pyval result"

record request =
  url :: string
  headers :: "(string \<times> string) list"
  payload :: pyval

definition notion_request :: "config \<Rightarrow> string \<Rightarrow> pyval \<Rightarrow> request" where
  "notion_request cfg database_id cursor =
     \<lparr> url = ''https://api.notion.com/v1/databases/'' @ database_id @ ''/query'',
       headers = [(''Authorization'', ''Bearer '' @ NOTION_TOKEN cfg),
                  (''Notion-Version'', NOTION_VERSION cfg),
                  (''Content-Type'', ''application/json'')],
       payload = PDict ((''page_size'', PInt 100) #
                        (if truthy cursor then [(''start_cursor'', cursor)] else [])) \<rparr>"

type_synonym fetch_run = "pyval list result \<times> request list \<times> response result list"

fun fetch_loop ::
  "config \<Rightarrow> string \<Rightarrow> response result list \<Rightarrow> pyval \<Rightarrow> pyval list \<Rightarrow> request list \<Rightarrow> fetch_run option"
where
  "fetch_loop cfg database_id [] cursor results sent = None"
| "fetch_loop cfg database_id (reply # script) cursor results sent =
     (let sent' = sent @ [notion_request cfg database_id cursor]
      in case reply of
           Inl e \<Rightarrow> Some (Inl e, sent', script)
         | Inr r \<Rightarrow>
             if status_code r \<ge> 400 then
               Some (die (''Notion API error '' @ str_int (status_code r) @ '': '' @ resp_text r),
                     sent', script)
             else
               (case bind_r (json r) (\<lambda>data.
                       bind_r (py_get data (PStr ''results'') (PList [])) (\<lambda>rs.
                       bind_r (py_iter rs) (\<lambda>page.
                       bind_r (py_get data (PStr ''has_more'') PNone) (\<lambda>has_more.
                       bind_r (py_get data (PStr ''next_cursor'') PNone) (\<lambda>next_cursor.
                         Inr (page, has_more, next_cursor)))))) of
                  Inl e \<Rightarrow> Some (Inl e, sent', script)
                | Inr (page, has_more, next_cursor) \<Rightarrow>
                    if \<not> truthy has_more then Some (Inr (results @ page), sent', script)
                    else fetch_loop cfg database_id script next_cursor (results @ page) sent'))"

definition fetch_all_notion_rows ::
  "config \<Rightarrow> string \<Rightarrow> response result list \<Rightarrow> fetch_run option" where
  "fetch_all_notion_rows cfg database_id script =
     (if NOTION_TOKEN cfg = [] then
        Some (die ''NOTION_TOKEN is missing (set GitHub secret NOTION_TOKEN).'', [], script)
      else if database_id = [] then
        Some (die ''NOTION_DATABASE_ID is missing (set GitHub secret NOTION_DATABASE_ID).'', [], script)
      else fetch_loop cfg database_id script PNone [] [])"

section \<open>The Google side\<close>

text \<open>
  The libraries that \<^verbatim>\<open>google_clients_from_token_json\<close> calls are outside the program:
  \<^verbatim>\<open>json.loads\<close> (\<open>None\<close> when it raises \<^verbatim>\<open>JSONDecodeError\<close>), the construction of
  the credentials, their refresh, \<^verbatim>\<open>build\<close>, and \<^verbatim>\<open>Path.resolve\<close>. They are taken as
  given, each with the exception it may raise.
\<close>

record creds =
  valid :: bool
  expired :: bool
  refresh_token :: pyval

record runtime =
  json_loads :: "string \<Rightarrow> pyval option"
  from_authorized_user_info :: "pyval \<Rightarrow> string list \<Rightarrow> creds result"
  refresh :: "creds \<Rightarrow> unit result"
  build :: "string \<Rightarrow> string \<Rightarrow> unit result"
  resolve :: "path \<Rightarrow> string"

definition google_clients_from_token_json :: "config \<Rightarrow> runtime \<Rightarrow> unit result" where
  "google_clients_from_token_json cfg rt =
     (if GOOGLE_TOKEN_JSON cfg = [] then
        die ''GOOGLE_TOKEN_JSON missing (set GitHub secret GOOGLE_TOKEN_JSON).''
      else case json_loads rt (GOOGLE_TOKEN_JSON cfg) of
        None \<Rightarrow> die ''GOOGLE_TOKEN_JSON is not valid JSON. Paste the full google_token.json content into the secret.''
      | Some info \<Rightarrow>
          bind_r (from_authorized_user_info rt info SCOPES) (\<lambda>c.
          bind_r (if \<not> valid c then
                    (if expired c \<and> truthy (refresh_token c) then refresh rt c
                     else die ''Google credentials invalid and cannot refresh. Re-generate google_token.json with refresh_token.'')
                  else Inr ()) (\<lambda>_.
          bind_r (build rt ''docs'' ''v1'') (\<lambda>_. build rt ''drive'' ''v3''))))"

text \<open>
  What the program does to the outside, in order: the directory made when the module is
  loaded, the calls to Drive and Docs, the file written, the lines printed. The outside
  answers each call with an exception or with what the call returns, an object or bytes,
  and may look at everything done so far to decide.
\<close>

datatype effect =
    Mkdir path
  | FilesCopy string pyval
  | DocumentsBatchUpdate pyval pyval
  | FilesExportMedia pyval string
  | WriteBytes path string
  | FilesDelete pyval
  | Print string

datatype answer = Obj pyval | Bytes string

type_synonym world = "effect list \<Rightarrow> answer result"

type_synonym 'a io = "effect list \<Rightarrow> 'a result \<times> effect list"

definition perform :: "world \<Rightarrow> effect \<Rightarrow> answer io" where
  "perform w e past = (w (past @ [e]), past @ [e])"

definition py_print :: "string \<Rightarrow> unit io" where
  "py_print line past = (Inr (), past @ [Print line])"

definition lift :: "'a result \<Rightarrow> 'a io" where
  "lift r past = (r, past)"

definition bind_io :: "'a io \<Rightarrow> ('a \<Rightarrow> 'b io) \<Rightarrow> 'b io" where
  "bind_io m f past =
     (case m past of (Inl e, past') \<Rightarrow> (Inl e, past') | (Inr x, past') \<Rightarrow> f x past')"

text \<open>\<^verbatim>\<open>a[k]\<close> on what a call returned: bytes are not indexed by a string.\<close>

fun answer_item :: "answer \<Rightarrow> string \<Rightarrow> pyval result" where
  "answer_item (Obj v) k = py_item v k"
| "answer_item (Bytes b) k = Inl TypeError"

definition copy_template_doc :: "world \<Rightarrow> string \<Rightarrow> string \<Rightarrow> pyval io" where
  "copy_template_doc w template_doc_id new_title =
     (if template_doc_id = [] then
        lift (die ''GOOGLE_TEMPLATE_DOC_ID missing (set GitHub secret GOOGLE_TEMPLATE_DOC_ID).'')
      else
        bind_io (perform w (FilesCopy template_doc_id
                   (PDict [(''name'', PStr new_title),
                           (''mimeType'', PStr ''application/vnd.google-apps.document'')])))
                (\<lambda>copied. lift (answer_item copied ''id'')))"

definition replace_placeholders :: "world \<Rightarrow> pyval \<Rightarrow> (string \<times> pyval) list \<Rightarrow> unit io" where
  "replace_placeholders w document_id repl =
     (let requests =
            map (\<lambda>item. PDict [(''replaceAllText'',
                   PDict [(''containsText'', PDict [(''text'', PStr (fst item)), (''matchCase'', PBool True)]),
                          (''replaceText'', snd item)])]) repl
      in bind_io (perform w (DocumentsBatchUpdate document_id (PDict [(''requests'', PList requests)])))
                 (\<lambda>_. lift (Inr ())))"

text \<open>
  \<^verbatim>\<open>Path.write_bytes(data)\<close> takes a view of the data before it opens the file, so data
  that is not bytes raises \<^verbatim>\<open>TypeError\<close> and nothing is written.
\<close>

definition export_pdf :: "world \<Rightarrow> pyval \<Rightarrow> path \<Rightarrow> unit io" where
  "export_pdf w document_id out_path =
     bind_io (perform w (FilesExportMedia document_id ''application/pdf'')) (\<lambda>data.
       case data of
         Bytes b \<Rightarrow> bind_io (perform w (WriteBytes out_path b)) (\<lambda>_. lift (Inr ()))
       | Obj v \<Rightarrow> lift (Inl TypeError))"

section \<open>The run: \<^verbatim>\<open>main\<close>\<close>

definition preferred_cols :: "string list" where
  "preferred_cols = [''Invoice #'', ''Invoice'', ''Name'', ''Title'', ''ID'']"

text \<open>\<^verbatim>\<open>v.strip()\<close> on an object: only a string has the method.\<close>

fun strip_of :: "pyval \<Rightarrow> string result" where
  "strip_of (PStr s) = Inr (py_strip s)"
| "strip_of v = Inl AttributeError"

text \<open>
  The loop over \<^verbatim>\<open>preferred_cols\<close> in \<^verbatim>\<open>main\<close>: \<open>None\<close> is \<^verbatim>\<open>base_name\<close> still
  being \<^verbatim>\<open>None\<close> when the loop ends.
\<close>

fun pick_base_name :: "(string \<times> pyval) list \<Rightarrow> string list \<Rightarrow> string option result" where
  "pick_base_name repl [] = Inr None"
| "pick_base_name repl (col # cols) =
     (let ph = placeholder col
      in bind_r (strip_of (dict_get repl ph (PStr ''''))) (\<lambda>stripped.
           if stripped \<noteq> [] then
             bind_r (py_item (PDict repl) ph) (\<lambda>v.
             bind_r (strip_of v) (\<lambda>base_name. Inr (Some base_name)))
           else pick_base_name repl cols))"

text \<open>
  The base name of row \<open>i\<close>: what the loop picked, or \<^verbatim>\<open>row_\<close> followed by \<open>i\<close>
  when \<^verbatim>\<open>not base_name\<close> holds after it.
\<close>

definition choose_base_name :: "(string \<times> pyval) list \<Rightarrow> int \<Rightarrow> string result" where
  "choose_base_name repl i =
     bind_r (pick_base_name repl preferred_cols) (\<lambda>picked.
       Inr (case picked of
              None \<Rightarrow> ''row_'' @ str_int i
            | Some base_name \<Rightarrow> if base_name = [] then ''row_'' @ str_int i else base_name))"

text \<open>The body of the loop over the rows, for row \<open>i\<close> of \<open>n\<close>.\<close>

definition process_row :: "config \<Rightarrow> world \<Rightarrow> int \<Rightarrow> int \<Rightarrow> pyval \<Rightarrow> unit io" where
  "process_row cfg w i n page =
     bind_io (lift (row_to_placeholder_map page)) (\<lambda>repl.
     bind_io (lift (choose_base_name repl i)) (\<lambda>base_name.
       let safe_name = slugify base_name;
           new_title = ''PDF_'' @ safe_name
       in bind_io (copy_template_doc w (GOOGLE_TEMPLATE_DOC_ID cfg) new_title) (\<lambda>new_doc_id.
          bind_io (replace_placeholders w new_doc_id repl) (\<lambda>_.
            let pdf_path = path_div (OUTPUT_DIR cfg) (safe_name @ ''.pdf'')
            in bind_io (export_pdf w new_doc_id pdf_path) (\<lambda>_.
               bind_io (if DELETE_INTERMEDIATE_DOCS cfg
                        then bind_io (perform w (FilesDelete new_doc_id)) (\<lambda>_. lift (Inr ()))
                        else lift (Inr ())) (\<lambda>_.
               py_print (''['' @ str_int i @ ''/'' @ str_int n @ ''] Saved: '' @ path_name pdf_path)))))))"

text \<open>\<^verbatim>\<open>for i, page in enumerate(rows, start=1)\<close>, started at \<open>i\<close>.\<close>

fun process_rows :: "config \<Rightarrow> world \<Rightarrow> int \<Rightarrow> int \<Rightarrow> pyval list \<Rightarrow> unit io" where
  "process_rows cfg w i n [] = lift (Inr ())"
| "process_rows cfg w i n (page # pages) =
     bind_io (process_row cfg w i n page) (\<lambda>_. process_rows cfg w (i + 1) n pages)"

text \<open>
  A run of \<^verbatim>\<open>main\<close>: its outcome, the requests sent to the data source and the effects
  after that. \<open>None\<close> only when the script of the data source ends too early.
\<close>

type_synonym main_run = "unit result \<times> request list \<times> effect list"

definition main :: "config \<Rightarrow> runtime \<Rightarrow> response result list \<Rightarrow> world \<Rightarrow> main_run option" where
  "main cfg rt script w =
     (case google_clients_from_token_json cfg rt of
        Inl e \<Rightarrow> Some (Inl e, [], [])
      | Inr _ \<Rightarrow>
          (case fetch_all_notion_rows cfg (NOTION_DATABASE_ID cfg) script of
             None \<Rightarrow> None
           | Some (Inl e, sent, _) \<Rightarrow> Some (Inl e, sent, [])
           | Some (Inr rows, sent, _) \<Rightarrow>
               if rows = [] then Some (die ''No rows found in Notion database.'', sent, [])
               else
                 (let n = int (length rows);
                      run = bind_io (py_print (''Found '' @ str_int n @ '' rows. Output: ''
                                               @ resolve rt (OUTPUT_DIR cfg))) (\<lambda>_.
                            bind_io (process_rows cfg w 1 n rows) (\<lambda>_. py_print ''Done.''))
                  in Some (fst (run []), sent, snd (run [])))))"

text \<open>
  The module run as a script: loading it reads the configuration and makes the output
  directory (\<^verbatim>\<open>OUTPUT_DIR.mkdir(parents=True, exist_ok=True)\<close>), then \<^verbatim>\<open>main\<close> runs.
\<close>

definition load_module :: "(string \<rightharpoonup> string) \<Rightarrow> world \<Rightarrow> config io" where
  "load_module environ w =
     (let cfg = load_config environ
      in bind_io (perform w (Mkdir (OUTPUT_DIR cfg))) (\<lambda>_. lift (Inr cfg)))"

definition run_script ::
  "(string \<rightharpoonup> string) \<Rightarrow> runtime \<Rightarrow> response result list \<Rightarrow> world \<Rightarrow> main_run option" where
  "run_script environ rt script w =
     (case load_module environ w [] of
        (Inl e, loaded) \<Rightarrow> Some (Inl e, [], loaded)
      | (Inr cfg, loaded) \<Rightarrow>
          (case main cfg rt script (\<lambda>past. w (loaded @ past)) of
             None \<Rightarrow> None
           | Some (outcome, sent, effects) \<Rightarrow> Some (outcome, sent, loaded @ effects)))"

section \<open>Notions used to state the properties\<close>

text \<open>The kinds that \<^verbatim>\<open>notion_prop_to_str\<close> has a branch for.\<close>

definition supported_kinds :: "string list" where
  "supported_kinds = [''title'', ''rich_text'', ''number'', ''checkbox'', ''select'', ''multi_select'',
     ''date'', ''email'', ''phone_number'', ''url'', ''people'', ''relation'', ''formula'', ''status'']"

text \<open>
  A well-formed property: a dictionary whose \<^verbatim>\<open>type\<close>, when there is one, is a string,
  and whose payload under that name is absent, \<^verbatim>\<open>None\<close>, or of the shape of its kind
  (text runs for a title, an option with a name for a select, and so on). A kind without
  a branch accepts any payload.
\<close>

definition str_or_absent :: "string \<Rightarrow> pyval \<Rightarrow> bool" where
  "str_or_absent k v =
     (case v of
        PDict d \<Rightarrow> (case map_of d k of None \<Rightarrow> True | Some (PStr s) \<Rightarrow> True | Some _ \<Rightarrow> False)
      | _ \<Rightarrow> False)"

definition has_str :: "string \<Rightarrow> pyval \<Rightarrow> bool" where
  "has_str k v =
     (case v of
        PDict d \<Rightarrow> (case map_of d k of Some (PStr s) \<Rightarrow> True | _ \<Rightarrow> False)
      | _ \<Rightarrow> False)"

definition str_none_or_absent :: "string \<Rightarrow> pyval \<Rightarrow> bool" where
  "str_none_or_absent k v =
     (case v of
        PDict d \<Rightarrow> (case map_of d k of None \<Rightarrow> True | Some (PStr s) \<Rightarrow> True | Some PNone \<Rightarrow> True
                     | Some _ \<Rightarrow> False)
      | _ \<Rightarrow> False)"

definition list_of :: "(pyval \<Rightarrow> bool) \<Rightarrow> pyval \<Rightarrow> bool" where
  "list_of P v = (case v of PList xs \<Rightarrow> list_all P xs | _ \<Rightarrow> False)"

definition wf_payload :: "string \<Rightarrow> pyval \<Rightarrow> bool" where
  "wf_payload t v =
     (v = PNone \<or>
      (if t = ''title'' \<or> t = ''rich_text'' then list_of (str_or_absent ''plain_text'') v
       else if t = ''number'' then (case v of PInt n \<Rightarrow> True | PFloat nz r \<Rightarrow> True | _ \<Rightarrow> False)
       else if t = ''checkbox'' then (case v of PBool b \<Rightarrow> True | _ \<Rightarrow> False)
       else if t = ''select'' \<or> t = ''status'' then has_str ''name'' v
       else if t = ''multi_select'' then list_of (has_str ''name'') v
       else if t = ''date'' then str_or_absent ''start'' v
       else if t = ''email'' \<or> t = ''phone_number'' \<or> t = ''url'' then (case v of PStr s \<Rightarrow> True | _ \<Rightarrow> False)
       else if t = ''people'' then list_of (str_none_or_absent ''name'') v
       else if t = ''relation'' then list_of (str_or_absent ''id'') v
       else if t = ''formula'' then str_none_or_absent ''type'' v
       else True))"

definition wf_prop :: "pyval \<Rightarrow> bool" where
  "wf_prop prop =
     (case prop of
        PDict p \<Rightarrow>
          (case map_of p ''type'' of
             None \<Rightarrow> True
           | Some (PStr t) \<Rightarrow> wf_payload t (dict_get p t PNone)
           | Some _ \<Rightarrow> False)
      | _ \<Rightarrow> False)"

definition is_str :: "pyval result \<Rightarrow> bool" where
  "is_str r = (case r of Inr (PStr s) \<Rightarrow> True | _ \<Rightarrow> False)"

text \<open>
  The slug as the specification words it: keep the allowed characters of the trimmed
  input, turn every whitespace run into one underscore (all but the last whitespace of a
  run are dropped, the last becomes the underscore), cut at 120, and take the default
  when nothing is left.
\<close>

fun collapse_ws :: "string \<Rightarrow> string" where
  "collapse_ws [] = []"
| "collapse_ws [c] = [if is_space c then CHR ''_'' else c]"
| "collapse_ws (c # d # cs) =
     (if is_space c \<and> is_space d then collapse_ws (d # cs)
      else (if is_space c then CHR ''_'' else c) # collapse_ws (d # cs))"

definition slug_spec :: "string \<Rightarrow> string" where
  "slug_spec s =
     (let cleaned = collapse_ws (filter slug_allowed (py_strip s))
      in if cleaned = [] then ''document'' else take 120 cleaned)"


text \<open>
  The trimmed value of a candidate column in a placeholder map; empty when the column
  has no placeholder.
\<close>

definition is_text :: "pyval \<Rightarrow> bool" where
  "is_text v = (case v of PStr s \<Rightarrow> True | _ \<Rightarrow> False)"

definition trimmed_value :: "(string \<times> pyval) list \<Rightarrow> string \<Rightarrow> string" where
  "trimmed_value repl col =
     (case dict_get repl (placeholder col) (PStr '''') of PStr s \<Rightarrow> py_strip s | _ \<Rightarrow> [])"

text \<open>
  What \<^verbatim>\<open>fetch_all_notion_rows\<close> reads from a response that it accepts: the rows of
  the page, the has-more flag and the next cursor. \<open>None\<close> for a response that makes
  the fetch fail.
\<close>

definition page_data :: "response \<Rightarrow> (pyval list \<times> pyval \<times> pyval) option" where
  "page_data r =
     (if status_code r \<ge> 400 then None
      else case json r of
        Inr (PDict d) \<Rightarrow>
          (case py_iter (dict_get d ''results'' (PList [])) of
             Inr rows \<Rightarrow> Some (rows, dict_get d ''has_more'' PNone, dict_get d ''next_cursor'' PNone)
           | Inl e \<Rightarrow> None)
      | _ \<Rightarrow> None)"

definition rows_of :: "response \<Rightarrow> pyval list" where
  "rows_of r = (case page_data r of Some (rows, hm, cur) \<Rightarrow> rows | None \<Rightarrow> [])"

definition has_more_of :: "response \<Rightarrow> bool" where
  "has_more_of r = (case page_data r of Some (rows, hm, cur) \<Rightarrow> truthy hm | None \<Rightarrow> False)"

definition next_cursor_of :: "response \<Rightarrow> pyval" where
  "next_cursor_of r = (case page_data r of Some (rows, hm, cur) \<Rightarrow> cur | None \<Rightarrow> PNone)"

text \<open>
  The slug that \<^verbatim>\<open>main\<close> derives for row \<open>i\<close>, and what a list of effects says about
  titles of copies, paths written and documents deleted.
\<close>

definition derived_slug :: "pyval \<Rightarrow> int \<Rightarrow> string result" where
  "derived_slug page i =
     bind_r (row_to_placeholder_map page) (\<lambda>repl.
     bind_r (choose_base_name repl i) (\<lambda>base_name. Inr (slugify base_name)))"

fun copied_title :: "effect \<Rightarrow> pyval option" where
  "copied_title (FilesCopy file_id (PDict body)) = map_of body ''name''"
| "copied_title e = None"

fun written_path :: "effect \<Rightarrow> path option" where
  "written_path (WriteBytes out_path data) = Some out_path"
| "written_path e = None"

fun deleted_doc :: "effect \<Rightarrow> pyval option" where
  "deleted_doc (FilesDelete doc) = Some doc"
| "deleted_doc e = None"

text \<open>The file \<open>name\<close> in the directory \<open>dir\<close>.\<close>

fun path_child :: "path \<Rightarrow> string \<Rightarrow> path" where
  "path_child (Path rt parts) name = Path rt (parts @ [name])"

text \<open>The slugs of the rows of a run, the first row counted as \<open>i\<close>.\<close>

fun row_slugs :: "int \<Rightarrow> pyval list \<Rightarrow> string list result" where
  "row_slugs i [] = Inr []"
| "row_slugs i (page # pages) =
     bind_r (derived_slug page i) (\<lambda>slug.
     bind_r (row_slugs (i + 1) pages) (\<lambda>slugs. Inr (slug # slugs)))"

text \<open>
  An outside that never raises, whatever was done before: it answers a copy with an
  object that has an \<^verbatim>\<open>id\<close>, an export with bytes, and every other call with something.
\<close>

definition obliging :: "world \<Rightarrow> bool" where
  "obliging w =
     (\<forall>past e.
        case e of
          FilesCopy file_id body \<Rightarrow>
            (\<exists>d doc. w (past @ [e]) = Inr (Obj (PDict d)) \<and> map_of d ''id'' = Some doc)
        | FilesExportMedia doc mime \<Rightarrow> (\<exists>b. w (past @ [e]) = Inr (Bytes b))
        | _ \<Rightarrow> (\<exists>a. w (past @ [e]) = Inr a))"

text \<open>The settings that the module trims when it reads them.\<close>

definition trimmed_vars :: "string list" where
  "trimmed_vars = [''NOTION_TOKEN'', ''NOTION_DATABASE_ID'', ''GOOGLE_TEMPLATE_DOC_ID'',
     ''GOOGLE_TOKEN_JSON'', ''NOTION_VERSION'']"

definition trimmed_settings :: "config \<Rightarrow> string list" where
  "trimmed_settings cfg = [NOTION_TOKEN cfg, NOTION_DATABASE_ID cfg, GOOGLE_TEMPLATE_DOC_ID cfg,
     GOOGLE_TOKEN_JSON cfg, NOTION_VERSION cfg]"

text \<open>
  Example inputs: a configuration, pages of the data source, libraries that accept the
  token, a row with one title column, and an outside that answers each call as the
  services do: a copy with the new document, an export with bytes.
\<close>

definition demo_cfg :: config where
  "demo_cfg = \<lparr> NOTION_TOKEN = ''secret'', NOTION_DATABASE_ID = ''db1'',
       GOOGLE_TEMPLATE_DOC_ID = ''tmpl'', GOOGLE_TOKEN_JSON = ''{}'',
       NOTION_VERSION = ''2022-06-28'', OUTPUT_DIR = Path [] [''out_pdfs''],
       DELETE_INTERMEDIATE_DOCS = True \<rparr>"

definition demo_page :: "pyval list \<Rightarrow> bool \<Rightarrow> pyval \<Rightarrow> response" where
  "demo_page rows flag cur =
     \<lparr> status_code = 200, resp_text = '''',
       json = Inr (PDict [(''results'', PList rows), (''has_more'', PBool flag), (''next_cursor'', cur)]) \<rparr>"

definition demo_runtime :: runtime where
  "demo_runtime =
     \<lparr> json_loads = (\<lambda>s. Some (PDict [])),
       from_authorized_user_info = (\<lambda>info scopes. Inr \<lparr> valid = True, expired = False, refresh_token = PNone \<rparr>),
       refresh = (\<lambda>c. Inr ()),
       build = (\<lambda>name version. Inr ()),
       resolve = (\<lambda>dir. ''/work/'' @ path_str dir) \<rparr>"

definition demo_world :: world where
  "demo_world past =
     (case rev past of
        FilesCopy file_id body # earlier \<Rightarrow>
          Inr (Obj (PDict [(''kind'', PStr ''drive#file''), (''id'', PStr ''doc'')]))
      | DocumentsBatchUpdate doc body # earlier \<Rightarrow> Inr (Obj (PDict [(''documentId'', doc)]))
      | FilesExportMedia doc mime # earlier \<Rightarrow> Inr (Bytes ''%PDF-1.4'')
      | WriteBytes out_path data # earlier \<Rightarrow> Inr (Obj (PInt (int (length data))))
      | FilesDelete doc # earlier \<Rightarrow> Inr (Obj (PStr ''''))
      | _ \<Rightarrow> Inr (Obj PNone))"

definition demo_row :: "string \<Rightarrow> pyval" where
  "demo_row name =
     PDict [(''properties'', PDict [(''Name'',
        PDict [(''type'', PStr ''title''), (''title'', PList [PDict [(''plain_text'', PStr name)]])])])]"

section \<open>Properties\<close>

subsection \<open>Normalisation\<close>

lemma dispatch:
  assumes "map_of p ''type'' = Some (PStr t)" and "t \<noteq> []"
  shows "notion_prop_to_str (PDict p) =
    (let v = dict_get p t PNone in
         if t = ''title'' then rich_plain_text v
         else if t = ''rich_text'' then rich_plain_text v
         else if t = ''number'' then Inr (PStr (if v = PNone then '''' else py_str v))
         else if t = ''checkbox'' then Inr (PStr (if truthy v then ''TRUE'' else ''FALSE''))
         else if t = ''select'' then (if truthy v then py_item v ''name'' else Inr (PStr ''''))
         else if t = ''multi_select'' then
           bind_r (py_iter (py_or v (PList []))) (\<lambda>xs.
           bind_r (map_result (\<lambda>x. py_item x ''name'') xs) (py_join '', ''))
         else if t = ''date'' then
           (if truthy v then py_get v (PStr ''start'') (PStr '''') else Inr (PStr ''''))
         else if t = ''email'' \<or> t = ''phone_number'' \<or> t = ''url'' then
           Inr (py_or v (PStr ''''))
         else if t = ''people'' then
           bind_r (py_iter (py_or v (PList []))) (\<lambda>ps.
           bind_r (map_result (\<lambda>p. bind_r (py_get p (PStr ''name'') PNone)
                                       (\<lambda>n. Inr (py_or n (PStr '''')))) ps) (py_join '', ''))
         else if t = ''relation'' then
           bind_r (py_iter (py_or v (PList []))) (\<lambda>rs.
           bind_r (map_result (\<lambda>r. py_get r (PStr ''id'') (PStr '''')) rs) (py_join '', ''))
         else if t = ''formula'' then
           bind_r (py_get (py_or v (PDict [])) (PStr ''type'') PNone) (\<lambda>ft.
             if \<not> truthy ft then Inr (PStr '''')
             else bind_r (py_get (py_or v (PDict [])) ft PNone) (\<lambda>x.
               Inr (PStr (py_str (py_or x (PStr ''''))))))
         else if t = ''status'' then (if truthy v then py_item v ''name'' else Inr (PStr ''''))
         else Inr (PStr (if v \<noteq> PNone then py_str v else '''')))"
proof -
  have 1: "py_get (PDict p) (PStr ''type'') PNone = Inr (PStr t)"
    by (simp add: dict_get_def assms)
  have 2: "py_get (PDict p) (PStr t) PNone = Inr (dict_get p t PNone)"
    by simp
  have 3: "\<And>x f. bind_r (Inr x) f = f x"
    by (simp add: bind_r_def)
  show ?thesis
    unfolding notion_prop_to_str_def 1 3
    by (simp only: truthy.simps assms 2 3 pyval.inject list.set insert_iff empty_iff Let_def
        not_not if_False simp_thms)
qed

lemma bind_r_Inr: "bind_r (Inr x) f = f x"
  by (simp add: bind_r_def)

lemma bind_r_Inl: "bind_r (Inl e) f = Inl e"
  by (simp add: bind_r_def)

lemma rich_plain_text_None: "rich_plain_text PNone = Inr (PStr '''')"
  by (simp add: rich_plain_text_def py_or_def bind_r_def py_join_def)

lemma join_nothing: "bind_r (py_iter (py_or PNone (PList []))) (\<lambda>xs. bind_r (map_result f xs) (py_join sep)) = Inr (PStr '''')"
  by (simp add: py_or_def bind_r_def py_join_def)

lemma absent_payload_result:
  assumes "t \<in> set supported_kinds" and "map_of p ''type'' = Some (PStr t)"
    and "map_of p t = None \<or> map_of p t = Some PNone"
  shows "notion_prop_to_str (PDict p) = Inr (PStr (if t = ''checkbox'' then ''FALSE'' else ''''))"
proof -
  have v: "dict_get p t PNone = PNone"
    using assms(3) by (auto simp: dict_get_def)
  have ne: "t \<noteq> []"
    using assms(1) by (auto simp: supported_kinds_def)
  have eq: "notion_prop_to_str (PDict p) =
    (if t = ''title'' then Inr (PStr '''')
         else if t = ''rich_text'' then Inr (PStr '''')
         else if t = ''number'' then Inr (PStr '''')
         else if t = ''checkbox'' then Inr (PStr ''FALSE'')
         else Inr (PStr ''''))"
    unfolding dispatch [OF assms(2) ne] v Let_def rich_plain_text_None join_nothing
    by (simp only: truthy.simps if_False if_True simp_thms py_or_def bind_r_Inr py_get.simps dict_get_def map_of.simps option.case
         if_cancel py_str_def pyval.case)
  show ?thesis
    unfolding eq by (cases "t = ''checkbox''") simp_all
qed



text \<open>
  Claim C3, as amended. For every kind with a branch other than checkbox, a property of
  that kind whose payload is absent or \<^verbatim>\<open>None\<close> normalises to the empty string; for
  checkbox it normalises to \<^verbatim>\<open>FALSE\<close>.
\<close>

theorem absent_payload_normalizes:
  assumes "t \<in> set supported_kinds" and "map_of p ''type'' = Some (PStr t)"
    and "map_of p t = None \<or> map_of p t = Some PNone"
  shows "notion_prop_to_str (PDict p) = Inr (PStr (if t = ''checkbox'' then ''FALSE'' else ''''))"
  using assms by (rule absent_payload_result)

theorem absent_payload_normalizes_witness:
  "''date'' \<in> set supported_kinds
   \<and> map_of [(''type'', PStr ''date''), (''date'', PNone)] ''type'' = Some (PStr ''date'')
   \<and> map_of [(''type'', PStr ''date''), (''date'', PNone)] ''date'' = Some PNone
   \<and> notion_prop_to_str (PDict [(''type'', PStr ''date''), (''date'', PNone)]) = Inr (PStr '''')
   \<and> notion_prop_to_str (PDict [(''type'', PStr ''multi_select'')]) = Inr (PStr '''')"
  using absent_payload_normalizes [of "''date''" "[(''type'', PStr ''date''), (''date'', PNone)]"]
    absent_payload_normalizes [of "''multi_select''" "[(''type'', PStr ''multi_select'')]"]
  by (simp add: supported_kinds_def)

theorem checkbox_absent_counterexample:
  "''checkbox'' \<in> set supported_kinds
   \<and> notion_prop_to_str (PDict [(''type'', PStr ''checkbox''), (''checkbox'', PNone)]) = Inr (PStr ''FALSE'')
   \<and> notion_prop_to_str (PDict [(''type'', PStr ''checkbox'')]) \<noteq> Inr (PStr '''')"
  by (simp add: notion_prop_to_str_def bind_r_def dict_get_def supported_kinds_def)

lemma is_strI: "r = Inr (PStr s) \<Longrightarrow> is_str r"
  by (simp add: is_str_def)

lemma is_strE: "is_str r \<Longrightarrow> \<exists>s. r = Inr (PStr s)"
  by (auto simp: is_str_def split: sum.splits pyval.splits)

lemma map_result_strs:
  "\<forall>x\<in>set xs. is_str (f x) \<Longrightarrow> \<exists>ss. map_result f xs = Inr (map PStr ss)"
proof (induction xs)
  case Nil
  then show ?case by simp
next
  case (Cons x xs)
  then obtain s where s: "f x = Inr (PStr s)" using is_strE by fastforce
  from Cons obtain ss where ss: "map_result f xs = Inr (map PStr ss)" by auto
  have "map_result f (x # xs) = Inr (map PStr (s # ss))" by (simp add: s ss)
  then show ?case by blast
qed

lemma as_str_strs: "map_result as_str (map PStr ss) = Inr ss"
  by (induction ss) auto

lemma join_strs:
  assumes "\<forall>x\<in>set xs. is_str (f x)"
  shows "is_str (bind_r (map_result f xs) (py_join sep))"
proof -
  from map_result_strs [OF assms] obtain ss where "map_result f xs = Inr (map PStr ss)" ..
  then show ?thesis by (simp add: bind_r_def py_join_def as_str_strs is_str_def)
qed

lemma join_list_of:
  assumes "list_of P v" and "\<And>x. P x \<Longrightarrow> is_str (f x)"
  shows "is_str (bind_r (py_iter (py_or v (PList []))) (\<lambda>xs. bind_r (map_result f xs) (py_join sep)))"
proof -
  from assms(1) obtain xs where v: "v = PList xs" and all: "list_all P xs"
    by (auto simp: list_of_def split: pyval.splits)
  have it: "py_iter (py_or v (PList [])) = Inr xs"
    by (cases xs) (simp_all add: v py_or_def)
  have "\<forall>x\<in>set xs. is_str (f x)" using all assms(2) by (auto simp: list_all_iff)
  from join_strs [OF this] show ?thesis by (simp add: it bind_r_Inr)
qed

lemma join_None:
  "is_str (bind_r (py_iter (py_or PNone (PList []))) (\<lambda>xs. bind_r (map_result f xs) (py_join sep)))"
  by (simp add: join_nothing is_str_def)

lemma get_str_or_absent: "str_or_absent k x \<Longrightarrow> is_str (py_get x (PStr k) (PStr ''''))"
  by (auto simp: str_or_absent_def is_str_def dict_get_def split: pyval.splits option.splits)

lemma item_has_str: "has_str k x \<Longrightarrow> is_str (py_item x k)"
  by (auto simp: has_str_def is_str_def split: pyval.splits option.splits)

lemma get_name_or_empty:
  "str_none_or_absent k x \<Longrightarrow> is_str (bind_r (py_get x (PStr k) PNone) (\<lambda>n. Inr (py_or n (PStr ''''))))"
  by (auto simp: str_none_or_absent_def is_str_def dict_get_def bind_r_def py_or_def
      split: pyval.splits option.splits)

lemma rich_plain_text_str:
  assumes "v = PNone \<or> list_of (str_or_absent ''plain_text'') v"
  shows "is_str (rich_plain_text v)"
proof -
  from assms show ?thesis
  proof
    assume "v = PNone"
    then show ?thesis unfolding rich_plain_text_def by (simp only: join_None)
  next
    assume "list_of (str_or_absent ''plain_text'') v"
    then show ?thesis unfolding rich_plain_text_def
      by (rule join_list_of) (rule get_str_or_absent)
  qed
qed

lemma kind_title:
  "map_of p ''type'' = Some (PStr ''title'') \<Longrightarrow>
   notion_prop_to_str (PDict p) = rich_plain_text (dict_get p ''title'' PNone)"
  by (simp add: dispatch Let_def)

lemma kind_rich_text:
  "map_of p ''type'' = Some (PStr ''rich_text'') \<Longrightarrow>
   notion_prop_to_str (PDict p) = rich_plain_text (dict_get p ''rich_text'' PNone)"
  by (simp add: dispatch Let_def)

lemma kind_number:
  "map_of p ''type'' = Some (PStr ''number'') \<Longrightarrow>
   notion_prop_to_str (PDict p) =
     Inr (PStr (if dict_get p ''number'' PNone = PNone then '''' else py_str (dict_get p ''number'' PNone)))"
  by (simp add: dispatch Let_def)

lemma kind_checkbox:
  "map_of p ''type'' = Some (PStr ''checkbox'') \<Longrightarrow>
   notion_prop_to_str (PDict p) =
     Inr (PStr (if truthy (dict_get p ''checkbox'' PNone) then ''TRUE'' else ''FALSE''))"
  by (simp add: dispatch Let_def)

lemma kind_select:
  "map_of p ''type'' = Some (PStr ''select'') \<Longrightarrow>
   notion_prop_to_str (PDict p) =
     (if truthy (dict_get p ''select'' PNone) then py_item (dict_get p ''select'' PNone) ''name''
      else Inr (PStr ''''))"
  by (simp add: dispatch Let_def)

lemma kind_status:
  "map_of p ''type'' = Some (PStr ''status'') \<Longrightarrow>
   notion_prop_to_str (PDict p) =
     (if truthy (dict_get p ''status'' PNone) then py_item (dict_get p ''status'' PNone) ''name''
      else Inr (PStr ''''))"
  by (simp add: dispatch Let_def)

lemma kind_other:
  "map_of p ''type'' = Some (PStr t) \<Longrightarrow> t \<noteq> [] \<Longrightarrow> t \<notin> set supported_kinds \<Longrightarrow>
   notion_prop_to_str (PDict p) =
     Inr (PStr (if dict_get p t PNone \<noteq> PNone then py_str (dict_get p t PNone) else ''''))"
  by (simp add: dispatch Let_def supported_kinds_def)

lemma kind_multi_select:
  "map_of p ''type'' = Some (PStr ''multi_select'') \<Longrightarrow>
   notion_prop_to_str (PDict p) =
     bind_r (py_iter (py_or (dict_get p ''multi_select'' PNone) (PList []))) (\<lambda>xs.
     bind_r (map_result (\<lambda>x. py_item x ''name'') xs) (py_join '', ''))"
  by (simp add: dispatch Let_def)

lemma kind_date:
  "map_of p ''type'' = Some (PStr ''date'') \<Longrightarrow>
   notion_prop_to_str (PDict p) =
     (if truthy (dict_get p ''date'' PNone)
      then py_get (dict_get p ''date'' PNone) (PStr ''start'') (PStr '''') else Inr (PStr ''''))"
  by (simp add: dispatch Let_def)

lemma kind_email:
  "map_of p ''type'' = Some (PStr ''email'') \<Longrightarrow>
   notion_prop_to_str (PDict p) = Inr (py_or (dict_get p ''email'' PNone) (PStr ''''))"
  by (simp add: dispatch Let_def)

lemma kind_phone_number:
  "map_of p ''type'' = Some (PStr ''phone_number'') \<Longrightarrow>
   notion_prop_to_str (PDict p) = Inr (py_or (dict_get p ''phone_number'' PNone) (PStr ''''))"
  by (simp add: dispatch Let_def)

lemma kind_url:
  "map_of p ''type'' = Some (PStr ''url'') \<Longrightarrow>
   notion_prop_to_str (PDict p) = Inr (py_or (dict_get p ''url'' PNone) (PStr ''''))"
  by (simp add: dispatch Let_def)

lemma kind_people:
  "map_of p ''type'' = Some (PStr ''people'') \<Longrightarrow>
   notion_prop_to_str (PDict p) =
     bind_r (py_iter (py_or (dict_get p ''people'' PNone) (PList []))) (\<lambda>ps.
     bind_r (map_result (\<lambda>p. bind_r (py_get p (PStr ''name'') PNone)
                                 (\<lambda>n. Inr (py_or n (PStr '''')))) ps) (py_join '', ''))"
  by (simp add: dispatch Let_def)

lemma kind_relation:
  "map_of p ''type'' = Some (PStr ''relation'') \<Longrightarrow>
   notion_prop_to_str (PDict p) =
     bind_r (py_iter (py_or (dict_get p ''relation'' PNone) (PList []))) (\<lambda>rs.
     bind_r (map_result (\<lambda>r. py_get r (PStr ''id'') (PStr '''')) rs) (py_join '', ''))"
  by (simp add: dispatch Let_def)

lemma kind_formula:
  "map_of p ''type'' = Some (PStr ''formula'') \<Longrightarrow>
   notion_prop_to_str (PDict p) =
     bind_r (py_get (py_or (dict_get p ''formula'' PNone) (PDict [])) (PStr ''type'') PNone) (\<lambda>ft.
       if \<not> truthy ft then Inr (PStr '''')
       else bind_r (py_get (py_or (dict_get p ''formula'' PNone) (PDict [])) ft PNone) (\<lambda>x.
         Inr (PStr (py_str (py_or x (PStr ''''))))))"
  by (simp add: dispatch Let_def)

lemma opt_item_str:
  "v = PNone \<or> has_str ''name'' v \<Longrightarrow>
   is_str (if truthy v then py_item v ''name'' else Inr (PStr ''''))"
  using item_has_str [of "''name''" v] by (auto simp: is_str_def)

lemma opt_text_str:
  "v = PNone \<or> (\<exists>s. v = PStr s) \<Longrightarrow> is_str (Inr (py_or v (PStr '''')))"
  by (auto simp: is_str_def py_or_def)

lemma formula_str:
  "v = PNone \<or> str_none_or_absent ''type'' v \<Longrightarrow>
   is_str (bind_r (py_get (py_or v (PDict [])) (PStr ''type'') PNone) (\<lambda>ft.
       if \<not> truthy ft then Inr (PStr '''')
       else bind_r (py_get (py_or v (PDict [])) ft PNone) (\<lambda>x.
         Inr (PStr (py_str (py_or x (PStr '''')))))))"
  by (auto simp: str_none_or_absent_def is_str_def py_or_def bind_r_def dict_get_def
      split: pyval.splits option.splits)

lemma wf_payload_str:
  assumes ty: "map_of p ''type'' = Some (PStr t)" and ne: "t \<noteq> []"
    and wf: "wf_payload t (dict_get p t PNone)"
  shows "is_str (notion_prop_to_str (PDict p))"
proof (cases "t \<in> set supported_kinds")
  case False
  from kind_other [OF ty ne False] show ?thesis by (simp add: is_str_def)
next
  case True
  then have "t = ''title'' \<or> t = ''rich_text'' \<or> t = ''number'' \<or> t = ''checkbox''
    \<or> t = ''select'' \<or> t = ''multi_select'' \<or> t = ''date'' \<or> t = ''email''
    \<or> t = ''phone_number'' \<or> t = ''url'' \<or> t = ''people'' \<or> t = ''relation''
    \<or> t = ''formula'' \<or> t = ''status''"
    by (simp add: supported_kinds_def)
  then show ?thesis
  proof (elim disjE)
    assume 1: "t = ''title''"
    with wf have "dict_get p ''title'' PNone = PNone
        \<or> list_of (str_or_absent ''plain_text'') (dict_get p ''title'' PNone)"
      by (simp add: wf_payload_def)
    from rich_plain_text_str [OF this] show ?thesis using ty 1 by (simp add: kind_title)
  next
    assume 2: "t = ''rich_text''"
    with wf have "dict_get p ''rich_text'' PNone = PNone
        \<or> list_of (str_or_absent ''plain_text'') (dict_get p ''rich_text'' PNone)"
      by (simp add: wf_payload_def)
    from rich_plain_text_str [OF this] show ?thesis using ty 2 by (simp add: kind_rich_text)
  next
    assume 3: "t = ''number''"
    then show ?thesis using ty by (simp add: kind_number is_str_def)
  next
    assume 4: "t = ''checkbox''"
    then show ?thesis using ty by (simp add: kind_checkbox is_str_def)
  next
    assume 5: "t = ''select''"
    with wf have "dict_get p ''select'' PNone = PNone \<or> has_str ''name'' (dict_get p ''select'' PNone)"
      by (simp add: wf_payload_def)
    from opt_item_str [OF this] show ?thesis using ty 5 by (simp add: kind_select)
  next
    assume 6: "t = ''multi_select''"
    with wf have "dict_get p ''multi_select'' PNone = PNone
        \<or> list_of (has_str ''name'') (dict_get p ''multi_select'' PNone)"
      by (simp add: wf_payload_def)
    then have "is_str (bind_r (py_iter (py_or (dict_get p ''multi_select'' PNone) (PList []))) (\<lambda>xs.
           bind_r (map_result (\<lambda>x. py_item x ''name'') xs) (py_join '', '')))"
      using join_None join_list_of [of "has_str ''name''" _ "\<lambda>x. py_item x ''name''", OF _ item_has_str]
      by metis
    then show ?thesis using ty 6 by (simp add: kind_multi_select)
  next
    assume 7: "t = ''date''"
    with wf have "dict_get p ''date'' PNone = PNone \<or> str_or_absent ''start'' (dict_get p ''date'' PNone)"
      by (simp add: wf_payload_def)
    then have "is_str (if truthy (dict_get p ''date'' PNone)
      then py_get (dict_get p ''date'' PNone) (PStr ''start'') (PStr '''') else Inr (PStr ''''))"
      using get_str_or_absent [of "''start''" "dict_get p ''date'' PNone"] by (auto simp: is_str_def)
    then show ?thesis using ty 7 by (simp add: kind_date)
  next
    assume 8: "t = ''email''"
    with wf have "dict_get p ''email'' PNone = PNone \<or> (\<exists>s. dict_get p ''email'' PNone = PStr s)"
      by (auto simp: wf_payload_def split: pyval.splits)
    from opt_text_str [OF this] show ?thesis using ty 8 by (simp add: kind_email)
  next
    assume 9: "t = ''phone_number''"
    with wf have "dict_get p ''phone_number'' PNone = PNone \<or> (\<exists>s. dict_get p ''phone_number'' PNone = PStr s)"
      by (auto simp: wf_payload_def split: pyval.splits)
    from opt_text_str [OF this] show ?thesis using ty 9 by (simp add: kind_phone_number)
  next
    assume 10: "t = ''url''"
    with wf have "dict_get p ''url'' PNone = PNone \<or> (\<exists>s. dict_get p ''url'' PNone = PStr s)"
      by (auto simp: wf_payload_def split: pyval.splits)
    from opt_text_str [OF this] show ?thesis using ty 10 by (simp add: kind_url)
  next
    assume 11: "t = ''people''"
    with wf have "dict_get p ''people'' PNone = PNone
        \<or> list_of (str_none_or_absent ''name'') (dict_get p ''people'' PNone)"
      by (simp add: wf_payload_def)
    then have "is_str (bind_r (py_iter (py_or (dict_get p ''people'' PNone) (PList []))) (\<lambda>ps.
     bind_r (map_result (\<lambda>p. bind_r (py_get p (PStr ''name'') PNone)
                                 (\<lambda>n. Inr (py_or n (PStr '''')))) ps) (py_join '', '')))"
      using join_None join_list_of [of "str_none_or_absent ''name''" _
          "\<lambda>p. bind_r (py_get p (PStr ''name'') PNone) (\<lambda>n. Inr (py_or n (PStr '''')))",
          OF _ get_name_or_empty]
      by metis
    then show ?thesis using ty 11 by (simp add: kind_people)
  next
    assume 12: "t = ''relation''"
    with wf have "dict_get p ''relation'' PNone = PNone
        \<or> list_of (str_or_absent ''id'') (dict_get p ''relation'' PNone)"
      by (simp add: wf_payload_def)
    then have "is_str (bind_r (py_iter (py_or (dict_get p ''relation'' PNone) (PList []))) (\<lambda>rs.
     bind_r (map_result (\<lambda>r. py_get r (PStr ''id'') (PStr '''')) rs) (py_join '', '')))"
      using join_None join_list_of [of "str_or_absent ''id''" _
          "\<lambda>r. py_get r (PStr ''id'') (PStr '''')", OF _ get_str_or_absent]
      by metis
    then show ?thesis using ty 12 by (simp add: kind_relation)
  next
    assume 13: "t = ''formula''"
    with wf have "dict_get p ''formula'' PNone = PNone
        \<or> str_none_or_absent ''type'' (dict_get p ''formula'' PNone)"
      by (simp add: wf_payload_def)
    from formula_str [OF this] show ?thesis using ty 13 by (simp add: kind_formula)
  next
    assume 14: "t = ''status''"
    with wf have "dict_get p ''status'' PNone = PNone \<or> has_str ''name'' (dict_get p ''status'' PNone)"
      by (simp add: wf_payload_def)
    from opt_item_str [OF this] show ?thesis using ty 14 by (simp add: kind_status)
  qed
qed

text \<open>
  Claim C2, as amended. On every well-formed property \<^verbatim>\<open>notion_prop_to_str\<close> returns a
  string and raises nothing; a property whose kind has no branch gives \<^verbatim>\<open>str\<close> of its
  payload, or the empty string when the payload is absent or \<^verbatim>\<open>None\<close>; a property
  without a kind (no \<^verbatim>\<open>type\<close>, or a falsy one) gives the empty string.
\<close>

theorem normalize_total_on_well_formed:
  "(wf_prop prop \<longrightarrow> (\<exists>s. notion_prop_to_str prop = Inr (PStr s)))
   \<and> (map_of p ''type'' = Some (PStr t) \<and> t \<noteq> [] \<and> t \<notin> set supported_kinds \<longrightarrow>
        notion_prop_to_str (PDict p) =
          Inr (PStr (if dict_get p t PNone \<noteq> PNone then py_str (dict_get p t PNone) else '''')))
   \<and> (\<not> truthy (dict_get q ''type'' PNone) \<longrightarrow> notion_prop_to_str (PDict q) = Inr (PStr ''''))"
proof (intro conjI impI)
  assume "\<not> truthy (dict_get q ''type'' PNone)"
  then show "notion_prop_to_str (PDict q) = Inr (PStr '''')"
    by (simp add: notion_prop_to_str_def bind_r_def)
next
  assume wf: "wf_prop prop"
  then obtain r where q: "prop = PDict r" by (auto simp: wf_prop_def split: pyval.splits)
  show "\<exists>s. notion_prop_to_str prop = Inr (PStr s)"
  proof (cases "map_of r ''type''")
    case None
    then show ?thesis by (simp add: q notion_prop_to_str_def dict_get_def bind_r_def)
  next
    case (Some ty)
    with wf q obtain k where k: "ty = PStr k" and w: "wf_payload k (dict_get r k PNone)"
      by (auto simp: wf_prop_def split: pyval.splits)
    show ?thesis
    proof (cases "k = []")
      case True
      then show ?thesis using Some k by (simp add: q notion_prop_to_str_def dict_get_def bind_r_def)
    next
      case False
      from wf_payload_str [OF _ False w] Some k have "is_str (notion_prop_to_str (PDict r))" by simp
      then show ?thesis using is_strE q by blast
    qed
  qed
next
  assume "map_of p ''type'' = Some (PStr t) \<and> t \<noteq> [] \<and> t \<notin> set supported_kinds"
  then show "notion_prop_to_str (PDict p) =
          Inr (PStr (if dict_get p t PNone \<noteq> PNone then py_str (dict_get p t PNone) else ''''))"
    using kind_other by blast
qed


theorem normalize_total_on_well_formed_witness:
  "wf_prop (PDict [(''type'', PStr ''select''), (''select'', PDict [(''name'', PStr ''Open'')])])
   \<and> notion_prop_to_str (PDict [(''type'', PStr ''select''), (''select'', PDict [(''name'', PStr ''Open'')])])
       = Inr (PStr ''Open'')
   \<and> ''rollup'' \<notin> set supported_kinds
   \<and> notion_prop_to_str (PDict [(''type'', PStr ''rollup''), (''rollup'', PInt 7)]) = Inr (PStr ''7'')
   \<and> dict_get [(''id'', PStr ''abc'')] ''type'' PNone = PNone
   \<and> notion_prop_to_str (PDict [(''id'', PStr ''abc'')]) = Inr (PStr '''')"
  using normalize_total_on_well_formed
      [of "PDict [(''type'', PStr ''select''), (''select'', PDict [(''name'', PStr ''Open'')])]"
          "[(''type'', PStr ''rollup''), (''rollup'', PInt 7)]" "''rollup''" "[(''id'', PStr ''abc'')]"]
  by (simp add: wf_prop_def wf_payload_def has_str_def dict_get_def supported_kinds_def
      notion_prop_to_str_def bind_r_def py_str_def str_int_def str_nat.simps digit_char_def)

theorem normalize_raises_counterexample:
  "notion_prop_to_str (PDict [(''type'', PStr ''select''), (''select'', PDict [(''id'', PStr ''x'')])])
     = Inl KeyError
   \<and> notion_prop_to_str (PDict [(''type'', PStr ''title''), (''title'', PInt 5)]) = Inl TypeError"
  by (simp add: notion_prop_to_str_def dict_get_def rich_plain_text_def py_or_def bind_r_def)

subsection \<open>Slugs\<close>

lemma filter_dropWhile_not: "filter (\<lambda>c. \<not> P c) (dropWhile P cs) = filter (\<lambda>c. \<not> P c) cs"
  by (induction cs) auto

lemma sub_runs_delete: "sub_runs P [] s = filter (\<lambda>c. \<not> P c) s"
  by (induction P "[] :: string" s rule: sub_runs.induct) (auto simp: filter_dropWhile_not)

lemma collapse_ws_space:
  "is_space c \<Longrightarrow> collapse_ws (c # cs) = CHR ''_'' # collapse_ws (dropWhile is_space cs)"
proof (induction cs arbitrary: c)
  case Nil
  then show ?case by simp
next
  case (Cons d ds)
  then show ?case by (cases "is_space d") simp_all
qed

lemma collapse_ws_other: "\<not> is_space c \<Longrightarrow> collapse_ws (c # cs) = c # collapse_ws cs"
  by (cases cs) simp_all

lemma sub_runs_collapse: "sub_runs is_space ''_'' s = collapse_ws s"
  by (induction is_space "''_''" s rule: sub_runs.induct)
     (simp_all add: collapse_ws_space collapse_ws_other)

lemma slugify_refines: "slugify s = slug_spec s"
  by (simp add: slugify_def slug_spec_def sub_runs_delete sub_runs_collapse Let_def)

lemma underscore_word: "is_word (CHR ''_'')"
  by (simp add: is_word_def code_point_def)

lemma space_is_space: "is_space (CHR '' '')"
  by (simp add: is_space_def code_point_def)

lemma collapse_ws_chars:
  "c \<in> set (collapse_ws xs) \<Longrightarrow> c = CHR ''_'' \<or> (c \<in> set xs \<and> \<not> is_space c)"
  by (induction xs rule: collapse_ws.induct) (auto split: if_splits)

lemma document_chars: "\<forall>c\<in>set ''document''. is_word c"
  by (simp add: is_word_def code_point_def)

lemma slug_chars:
  assumes "c \<in> set (slugify s)"
  shows "is_word c \<or> c = CHR ''-''"
proof (cases "collapse_ws (filter slug_allowed (py_strip s)) = []")
  case True
  then have "slugify s = ''document''" by (simp add: slugify_refines slug_spec_def)
  with assms document_chars show ?thesis by metis
next
  case False
  then have "slugify s = take 120 (collapse_ws (filter slug_allowed (py_strip s)))"
    by (simp add: slugify_refines slug_spec_def)
  with assms have "c \<in> set (collapse_ws (filter slug_allowed (py_strip s)))"
    by (auto dest: in_set_takeD)
  from collapse_ws_chars [OF this] show ?thesis
    using underscore_word space_is_space by (auto simp: slug_allowed_def)
qed

lemma set_py_strip: "set (py_strip s) \<subseteq> set s"
proof -
  have "set (py_strip s) \<subseteq> set (dropWhile is_space s)"
    unfolding py_strip_def using set_dropWhileD by fastforce
  also have "\<dots> \<subseteq> set s" using set_dropWhileD by fastforce
  finally show ?thesis .
qed

lemma bang_not_allowed: "\<not> slug_allowed (CHR ''!'')"
  by (simp add: slug_allowed_def is_word_def code_point_def)

lemma no_space_dropWhile: "\<forall>c\<in>set s. \<not> is_space c \<Longrightarrow> dropWhile is_space s = s"
  by (cases s) auto

lemma no_space_strip: "\<forall>c\<in>set s. \<not> is_space c \<Longrightarrow> py_strip s = s"
  by (simp add: py_strip_def no_space_dropWhile)

lemma no_space_collapse: "\<forall>c\<in>set s. \<not> is_space c \<Longrightarrow> collapse_ws s = s"
  by (induction s rule: collapse_ws.induct) auto

lemma letters_cleaned:
  "collapse_ws (filter slug_allowed (py_strip (replicate n (CHR ''a'')))) = replicate n (CHR ''a'')"
proof -
  have a: "\<not> is_space (CHR ''a'')" "slug_allowed (CHR ''a'')"
    by (simp_all add: is_space_def slug_allowed_def is_word_def code_point_def)
  have "py_strip (replicate n (CHR ''a'')) = replicate n (CHR ''a'')"
    using a by (simp add: no_space_strip)
  moreover have "filter slug_allowed (replicate n (CHR ''a'')) = replicate n (CHR ''a'')"
    using a by simp
  moreover have "collapse_ws (replicate n (CHR ''a'')) = replicate n (CHR ''a'')"
    using a by (simp add: no_space_collapse)
  ultimately show ?thesis by simp
qed

text \<open>
  Claim C4, as amended. \<^verbatim>\<open>slugify\<close> computes the slug of the specification: it keeps
  only allowed characters, turns every whitespace run that is left into one underscore,
  cuts at 120 characters and gives the default when nothing is left. The slug is never
  empty, never longer than 120, holds only word characters and hyphens, and is exactly
  120 long when the cleaned text has at least 120 characters.
\<close>

theorem slugify_meets_spec:
  "slugify s = slug_spec s
   \<and> (\<forall>c\<in>set (slugify s). is_word c \<or> c = CHR ''-'')
   \<and> length (slugify s) \<le> 120
   \<and> slugify s \<noteq> []
   \<and> (120 \<le> length (collapse_ws (filter slug_allowed (py_strip s))) \<longrightarrow> length (slugify s) = 120)"
proof (intro conjI)
  show "slugify s = slug_spec s" by (rule slugify_refines)
  show "\<forall>c\<in>set (slugify s). is_word c \<or> c = CHR ''-''" using slug_chars by blast
  show "length (slugify s) \<le> 120" by (simp add: slugify_refines slug_spec_def Let_def)
  show "slugify s \<noteq> []" by (auto simp: slugify_refines slug_spec_def Let_def)
  show "120 \<le> length (collapse_ws (filter slug_allowed (py_strip s))) \<longrightarrow> length (slugify s) = 120"
    by (auto simp: slugify_refines slug_spec_def Let_def)
qed

theorem slugify_meets_spec_witness:
  "120 \<le> length (collapse_ws (filter slug_allowed (py_strip (replicate 130 (CHR ''a'')))))
   \<and> length (slugify (replicate 130 (CHR ''a''))) = 120
   \<and> slugify (replicate 130 (CHR ''a'')) = replicate 120 (CHR ''a'')"
  using slugify_meets_spec [of "replicate 130 (CHR ''a'')"]
  by (simp add: letters_cleaned slug_spec_def)

theorem slugify_long_input_counterexample:
  "length (replicate 121 (CHR ''!'')) > 120
   \<and> length (slugify (replicate 121 (CHR ''!''))) \<noteq> 120"
proof -
  have "set (py_strip (replicate 121 (CHR ''!''))) \<subseteq> {CHR ''!''}"
    using set_py_strip [of "replicate 121 (CHR ''!'')"] by auto
  then have "filter slug_allowed (py_strip (replicate 121 (CHR ''!''))) = []"
    using bang_not_allowed by (auto simp: filter_empty_conv)
  then have "slugify (replicate 121 (CHR ''!'')) = ''document''"
    by (simp add: slugify_refines slug_spec_def)
  then show ?thesis by simp
qed

subsection \<open>Placeholders and base names\<close>

lemma placeholder_inj: "placeholder a = placeholder b \<longleftrightarrow> a = b"
  by (simp add: placeholder_def)

lemma dict_set_new: "k \<notin> set (map fst d) \<Longrightarrow> dict_set d k v = d @ [(k, v)]"
  by (simp add: dict_set_def)

lemma fill_placeholders_fresh:
  assumes "distinct (map fst props)"
    and "\<forall>item\<in>set props. placeholder (fst item) \<notin> set (map fst acc)"
  shows "fill_placeholders acc props =
           bind_r (map_result (\<lambda>item. notion_prop_to_str (snd item)) props)
                  (\<lambda>vs. Inr (acc @ zip (map (\<lambda>item. placeholder (fst item)) props) vs))"
  using assms
proof (induction props arbitrary: acc)
  case Nil
  then show ?case by (simp add: bind_r_def)
next
  case (Cons item items)
  have new: "placeholder (fst item) \<notin> set (map fst acc)" using Cons.prems(2) by simp
  have d: "distinct (map fst items)" using Cons.prems(1) by simp
  have fresh: "\<forall>it\<in>set items. placeholder (fst it) \<notin> set (map fst (acc @ [(placeholder (fst item), v)]))" for v
    using Cons.prems by (force simp: placeholder_inj image_iff)
  show ?case
  proof (cases "notion_prop_to_str (snd item)")
    case (Inl e)
    then show ?thesis by (simp add: bind_r_def)
  next
    case (Inr v)
    have "fill_placeholders acc (item # items) =
            fill_placeholders (acc @ [(placeholder (fst item), v)]) items"
      by (simp add: Inr bind_r_def dict_set_new [OF new])
    also have "\<dots> = bind_r (map_result (\<lambda>item. notion_prop_to_str (snd item)) items)
                  (\<lambda>vs. Inr ((acc @ [(placeholder (fst item), v)]) @ zip (map (\<lambda>item. placeholder (fst item)) items) vs))"
      by (rule Cons.IH [OF d fresh])
    also have "\<dots> = bind_r (map_result (\<lambda>item. notion_prop_to_str (snd item)) (item # items))
                  (\<lambda>vs. Inr (acc @ zip (map (\<lambda>item. placeholder (fst item)) (item # items)) vs))"
      by (simp add: Inr bind_r_def split: sum.splits)
    finally show ?thesis .
  qed
qed

lemma map_result_length: "map_result f xs = Inr ys \<Longrightarrow> length ys = length xs"
  by (induction xs arbitrary: ys) (auto split: sum.splits)

text \<open>
  Claim C8. For a row whose columns have distinct names, the placeholder map has one
  entry per column, in the order of the columns: the key is the column name between
  double braces, the value is \<^verbatim>\<open>notion_prop_to_str\<close> of the column's property. There
  is a map exactly when every property normalises; the first exception ends the call.
\<close>

theorem placeholder_map_one_entry_per_column:
  assumes "py_get page (PStr ''properties'') (PDict []) = Inr (PDict props)"
    and "distinct (map fst props)"
  shows "row_to_placeholder_map page =
           bind_r (map_result (\<lambda>item. notion_prop_to_str (snd item)) props)
                  (\<lambda>vs. Inr (zip (map (\<lambda>item. placeholder (fst item)) props) vs))
         \<and> (\<forall>repl. row_to_placeholder_map page = Inr repl \<longrightarrow>
               map fst repl = map (\<lambda>item. placeholder (fst item)) props \<and> distinct (map fst repl))"
proof -
  have eq: "row_to_placeholder_map page =
           bind_r (map_result (\<lambda>item. notion_prop_to_str (snd item)) props)
                  (\<lambda>vs. Inr (zip (map (\<lambda>item. placeholder (fst item)) props) vs))"
    using fill_placeholders_fresh [OF assms(2), of "[]"]
    by (simp add: row_to_placeholder_map_def assms(1) bind_r_def)
  have inj: "distinct (map (\<lambda>item. placeholder (fst item)) props)"
    using assms(2) by (simp add: distinct_map inj_on_def placeholder_inj)
  have "map fst repl = map (\<lambda>item. placeholder (fst item)) props \<and> distinct (map fst repl)"
    if "row_to_placeholder_map page = Inr repl" for repl
  proof -
    from that eq obtain vs where vs: "map_result (\<lambda>item. notion_prop_to_str (snd item)) props = Inr vs"
      and repl: "repl = zip (map (\<lambda>item. placeholder (fst item)) props) vs"
      by (auto simp: bind_r_def split: sum.splits)
    from map_result_length [OF vs] have "length vs = length props" .
    then have "map fst repl = map (\<lambda>item. placeholder (fst item)) props" by (simp add: repl)
    with inj show ?thesis by simp
  qed
  with eq show ?thesis by blast
qed

theorem placeholder_map_one_entry_per_column_witness:
  "row_to_placeholder_map (PDict [(''properties'', PDict [
       (''Name'', PDict [(''type'', PStr ''title''), (''title'', PList [PDict [(''plain_text'', PStr ''Acme'')]])]),
       (''Total'', PDict [(''type'', PStr ''number''), (''number'', PInt 42)])])])
     = Inr [(''{{Name}}'', PStr ''Acme''), (''{{Total}}'', PStr ''42'')]"
  using placeholder_map_one_entry_per_column [of "PDict [(''properties'', PDict [
       (''Name'', PDict [(''type'', PStr ''title''), (''title'', PList [PDict [(''plain_text'', PStr ''Acme'')]])]),
       (''Total'', PDict [(''type'', PStr ''number''), (''number'', PInt 42)])])]"
       "[(''Name'', PDict [(''type'', PStr ''title''), (''title'', PList [PDict [(''plain_text'', PStr ''Acme'')]])]),
       (''Total'', PDict [(''type'', PStr ''number''), (''number'', PInt 42)])]"]
  by (simp add: dict_get_def bind_r_def notion_prop_to_str_def rich_plain_text_def py_or_def py_join_def
      placeholder_def py_str_def str_int_def str_nat.simps digit_char_def)

lemma py_strip_Nil: "py_strip [] = []"
  by (simp add: py_strip_def)

lemma pick_base_name_find:
  assumes "\<forall>col\<in>set cols. is_text (dict_get repl (placeholder col) (PStr ''''))"
  shows "pick_base_name repl cols =
           Inr (map_option (trimmed_value repl) (find (\<lambda>col. trimmed_value repl col \<noteq> []) cols))"
  using assms
proof (induction cols)
  case Nil
  then show ?case by simp
next
  case (Cons col cols)
  then obtain s where s: "dict_get repl (placeholder col) (PStr '''') = PStr s"
    by (auto simp: is_text_def split: pyval.splits)
  have tv: "trimmed_value repl col = py_strip s" by (simp add: trimmed_value_def s)
  show ?case
  proof (cases "py_strip s = []")
    case True
    then show ?thesis using Cons by (simp add: s tv bind_r_def)
  next
    case False
    then have "map_of repl (placeholder col) = Some (PStr s)"
      using s by (auto simp: dict_get_def py_strip_Nil split: option.splits)
    then show ?thesis using False by (simp add: s tv bind_r_def)
  qed
qed

text \<open>
  Claim C5, as amended. When the values of the candidate columns are strings, the base
  name of row \<open>i\<close> is the trimmed placeholder value of the first column of
  \<^verbatim>\<open>preferred_cols\<close> whose trimmed value is not empty, and \<^verbatim>\<open>row_\<close> followed by \<open>i\<close>
  when there is none.
\<close>

theorem base_name_first_nonblank_candidate:
  assumes "\<forall>col\<in>set preferred_cols. is_text (dict_get repl (placeholder col) (PStr ''''))"
  shows "choose_base_name repl i =
           Inr (case find (\<lambda>col. trimmed_value repl col \<noteq> []) preferred_cols of
                  None \<Rightarrow> ''row_'' @ str_int i
                | Some col \<Rightarrow> trimmed_value repl col)"
proof -
  have "find (\<lambda>col. trimmed_value repl col \<noteq> []) preferred_cols = Some col \<Longrightarrow> trimmed_value repl col \<noteq> []" for col
    by (auto simp: find_Some_iff)
  then show ?thesis
    unfolding choose_base_name_def pick_base_name_find [OF assms]
    by (auto simp: bind_r_def split: option.splits)
qed

theorem base_name_untrimmed_counterexample:
  "choose_base_name [(''{{Name}}'', PStr '' X '')] 1 = Inr ''X''
   \<and> dict_get [(''{{Name}}'', PStr '' X '')] (placeholder ''Name'') (PStr '''') = PStr '' X ''"
  by (simp add: choose_base_name_def preferred_cols_def placeholder_def dict_get_def bind_r_def
      py_strip_def is_space_def code_point_def)

theorem base_name_first_nonblank_candidate_witness:
  "is_text (dict_get [(''{{Invoice}}'', PStr ''   ''), (''{{Title}}'', PStr ''X'')] (placeholder ''Invoice'') (PStr ''''))
   \<and> is_text (dict_get [(''{{Invoice}}'', PStr ''   ''), (''{{Title}}'', PStr ''X'')] (placeholder ''Title'') (PStr ''''))
   \<and> trimmed_value [(''{{Invoice}}'', PStr ''   ''), (''{{Title}}'', PStr ''X'')] ''Invoice'' = []
   \<and> choose_base_name [(''{{Invoice}}'', PStr ''   ''), (''{{Title}}'', PStr ''X'')] 3 = Inr ''X''
   \<and> choose_base_name [(''{{Total}}'', PStr ''42'')] 7 = Inr ''row_7''"
  using base_name_first_nonblank_candidate [of "[(''{{Invoice}}'', PStr ''   ''), (''{{Title}}'', PStr ''X'')]" 3]
    base_name_first_nonblank_candidate [of "[(''{{Total}}'', PStr ''42'')]" 7]
  by (simp add: preferred_cols_def placeholder_def dict_get_def is_text_def trimmed_value_def
      py_strip_def is_space_def code_point_def str_int_def str_nat.simps digit_char_def)

subsection \<open>Fetching\<close>

lemma fetch_step:
  assumes "page_data r \<noteq> None"
  shows "fetch_loop cfg db (Inr r # script) cursor results sent =
           (if has_more_of r
            then fetch_loop cfg db script (next_cursor_of r) (results @ rows_of r)
                   (sent @ [notion_request cfg db cursor])
            else Some (Inr (results @ rows_of r), sent @ [notion_request cfg db cursor], script))"
proof -
  from assms obtain rows hm cur where pd: "page_data r = Some (rows, hm, cur)" by auto
  then have st: "\<not> status_code r \<ge> 400"
    by (auto simp: page_data_def split: if_splits)
  from pd st obtain d where j: "json r = Inr (PDict d)"
    by (auto simp: page_data_def split: if_splits sum.splits pyval.splits)
  from pd st j have it: "py_iter (dict_get d ''results'' (PList [])) = Inr rows"
    and m: "dict_get d ''has_more'' PNone = hm" and c: "dict_get d ''next_cursor'' PNone = cur"
    by (auto simp: page_data_def split: sum.splits)
  have b: "bind_r (json r) (\<lambda>data.
                       bind_r (py_get data (PStr ''results'') (PList [])) (\<lambda>rs.
                       bind_r (py_iter rs) (\<lambda>page.
                       bind_r (py_get data (PStr ''has_more'') PNone) (\<lambda>has_more.
                       bind_r (py_get data (PStr ''next_cursor'') PNone) (\<lambda>next_cursor.
                         Inr (page, has_more, next_cursor)))))) = Inr (rows, hm, cur)"
    by (simp add: j bind_r_def it m c)
  show ?thesis
    using st by (simp add: b Let_def rows_of_def has_more_of_def next_cursor_of_def pd)
qed

lemma fetch_loop_pages:
  assumes "\<forall>r\<in>set pages. page_data r \<noteq> None \<and> has_more_of r"
    and "page_data final \<noteq> None" and "\<not> has_more_of final"
  shows "fetch_loop cfg db (map Inr pages @ Inr final # rest) cursor results sent =
           Some (Inr (results @ concat (map rows_of (pages @ [final]))),
                 sent @ map (notion_request cfg db) (cursor # map next_cursor_of pages),
                 rest)"
  using assms(1)
proof (induction pages arbitrary: cursor results sent)
  case Nil
  then show ?case by (simp add: fetch_step [OF assms(2)] assms(3) del: fetch_loop.simps)
next
  case (Cons r pages)
  then have r: "page_data r \<noteq> None" "has_more_of r" by simp_all
  have "fetch_loop cfg db (map Inr (r # pages) @ Inr final # rest) cursor results sent =
          fetch_loop cfg db (map Inr pages @ Inr final # rest) (next_cursor_of r) (results @ rows_of r)
                   (sent @ [notion_request cfg db cursor])"
    by (simp add: fetch_step [OF r(1)] r(2) del: fetch_loop.simps)
  also have "\<dots> = Some (Inr ((results @ rows_of r) @ concat (map rows_of (pages @ [final]))),
                 (sent @ [notion_request cfg db cursor]) @ map (notion_request cfg db) (next_cursor_of r # map next_cursor_of pages),
                 rest)"
    using Cons.prems by (intro Cons.IH) simp
  finally show ?case by simp
qed

text \<open>
  Claim C6. With a token and a database id, a script of pages that each report more,
  followed by a page that does not, makes \<^verbatim>\<open>fetch_all_notion_rows\<close> return the rows of
  all these pages in order, unchanged. It sends one request per page and no more: the
  first without a cursor, each later one with the next cursor of the response before it,
  all with page size 100. What follows in the script is not consumed.
\<close>

theorem fetch_all_paginates:
  assumes "NOTION_TOKEN cfg \<noteq> []" and "database_id \<noteq> []"
    and "\<forall>r\<in>set pages. page_data r \<noteq> None \<and> has_more_of r"
    and "page_data final \<noteq> None" and "\<not> has_more_of final"
  shows "fetch_all_notion_rows cfg database_id (map Inr pages @ Inr final # rest) =
           Some (Inr (concat (map rows_of (pages @ [final]))),
                 map (notion_request cfg database_id) (PNone # map next_cursor_of pages),
                 rest)"
  using fetch_loop_pages [OF assms(3,4,5), of cfg database_id rest PNone "[]" "[]"] assms(1,2)
  by (simp add: fetch_all_notion_rows_def)

lemma demo_page_data: "page_data (demo_page rows flag cur) = Some (rows, PBool flag, cur)"
  by (simp add: page_data_def demo_page_def dict_get_def)

theorem fetch_all_paginates_witness:
  "fetch_all_notion_rows demo_cfg ''db1''
       [Inr (demo_page [PInt 1, PInt 2] True (PStr ''c1'')),
        Inr (demo_page [PInt 3] True (PStr ''c2'')),
        Inr (demo_page [PInt 4, PInt 5] False PNone),
        Inr (demo_page [PInt 6] False PNone)]
     = Some (Inr [PInt 1, PInt 2, PInt 3, PInt 4, PInt 5],
             [notion_request demo_cfg ''db1'' PNone,
              notion_request demo_cfg ''db1'' (PStr ''c1''),
              notion_request demo_cfg ''db1'' (PStr ''c2'')],
             [Inr (demo_page [PInt 6] False PNone)])
   \<and> payload (notion_request demo_cfg ''db1'' PNone) = PDict [(''page_size'', PInt 100)]
   \<and> payload (notion_request demo_cfg ''db1'' (PStr ''c1''))
       = PDict [(''page_size'', PInt 100), (''start_cursor'', PStr ''c1'')]"
  using fetch_all_paginates [of demo_cfg "''db1''"
      "[demo_page [PInt 1, PInt 2] True (PStr ''c1''), demo_page [PInt 3] True (PStr ''c2'')]"
      "demo_page [PInt 4, PInt 5] False PNone" "[Inr (demo_page [PInt 6] False PNone)]"]
  by (simp add: demo_page_data rows_of_def has_more_of_def next_cursor_of_def demo_cfg_def
      notion_request_def)

subsection \<open>The run\<close>

lemma bind_io_Inr:
  "bind_io m f past = (Inr u, past') \<longleftrightarrow> (\<exists>x mid. m past = (Inr x, mid) \<and> f x mid = (Inr u, past'))"
  by (auto simp: bind_io_def split: prod.splits sum.splits)

lemma bind_io_step: "m past = (Inr x, mid) \<Longrightarrow> bind_io m f past = f x mid"
  by (simp add: bind_io_def)

lemma lift_Inr: "lift r past = (Inr x, past') \<longleftrightarrow> r = Inr x \<and> past' = past"
  by (auto simp: lift_def)

lemma perform_Inr: "perform w e past = (Inr x, past') \<longleftrightarrow> w (past @ [e]) = Inr x \<and> past' = past @ [e]"
  by (auto simp: perform_def)

lemma split_slash_plain: "CHR ''/'' \<notin> set s \<Longrightarrow> split_slash s = [s]"
  by (induction s) auto

lemma slash_not_slug: "CHR ''/'' \<notin> set (slugify s)"
proof
  assume "CHR ''/'' \<in> set (slugify s)"
  from slug_chars [OF this] show False
    by (simp add: is_word_def code_point_def)
qed

lemma pdf_name_path: "py_path (slugify s @ ''.pdf'') = Path [] [slugify s @ ''.pdf'']"
proof -
  have ne: "slugify s \<noteq> []" by (auto simp: slugify_refines slug_spec_def Let_def)
  have no: "CHR ''/'' \<notin> set (slugify s @ ''.pdf'')" using slash_not_slug [of s] by simp
  then have sp: "split_slash (slugify s @ ''.pdf'') = [slugify s @ ''.pdf'']"
    by (rule split_slash_plain)
  obtain c cs where c: "slugify s = c # cs" using ne by (cases "slugify s") auto
  have c': "c \<noteq> CHR ''/''" using slash_not_slug [of s] c by auto
  have dot: "slugify s @ ''.pdf'' \<noteq> ''.''" using ne by (cases "slugify s") auto
  show ?thesis
    unfolding py_path_def sp using c' dot by (simp add: c)
qed

lemma pdf_path_child:
  "path_div dir (slugify s @ ''.pdf'') = path_child dir (slugify s @ ''.pdf'')"
  by (cases dir) (simp add: pdf_name_path)

lemma pdf_path_name: "path_name (path_child dir (t @ ''.pdf'')) = t @ ''.pdf''"
  by (cases dir) simp

lemma copy_template_doc_ok:
  assumes "copy_template_doc w t title past = (Inr doc, past')"
  shows "past' = past @ [FilesCopy t (PDict [(''name'', PStr title),
                           (''mimeType'', PStr ''application/vnd.google-apps.document'')])]"
  using assms
  by (auto simp: copy_template_doc_def bind_io_Inr lift_Inr perform_Inr die_def split: if_splits)

lemma replace_placeholders_ok:
  assumes "replace_placeholders w doc repl past = (Inr u, past')"
  shows "\<exists>body. past' = past @ [DocumentsBatchUpdate doc body]"
  using assms
  by (auto simp: replace_placeholders_def Let_def bind_io_Inr lift_Inr perform_Inr)

lemma export_pdf_ok:
  assumes "export_pdf w doc out_path past = (Inr u, past')"
  shows "\<exists>data. past' = past @ [FilesExportMedia doc ''application/pdf'', WriteBytes out_path data]"
proof -
  from assms obtain a mid where
    p: "perform w (FilesExportMedia doc ''application/pdf'') past = (Inr a, mid)"
    and c: "(case a of Bytes b \<Rightarrow> bind_io (perform w (WriteBytes out_path b)) (\<lambda>_. lift (Inr ()))
             | Obj v \<Rightarrow> lift (Inl TypeError)) mid = (Inr u, past')"
    unfolding export_pdf_def bind_io_Inr by blast
  from p have mid: "mid = past @ [FilesExportMedia doc ''application/pdf'']"
    by (simp add: perform_Inr)
  show ?thesis
  proof (cases a)
    case (Obj v)
    with c show ?thesis by (simp add: lift_def)
  next
    case (Bytes b)
    with c have "past' = mid @ [WriteBytes out_path b]"
      by (auto simp: bind_io_Inr lift_Inr perform_Inr)
    then show ?thesis by (simp add: mid)
  qed
qed

lemma delete_step_ok:
  assumes "(if flag then bind_io (perform w (FilesDelete doc)) (\<lambda>_. lift (Inr ())) else lift (Inr ())) past = (Inr u, past')"
  shows "past' = past @ (if flag then [FilesDelete doc] else [])"
  using assms
  by (auto simp: bind_io_Inr lift_Inr perform_Inr split: if_splits)

lemma process_row_ok:
  assumes "process_row cfg w i n page past = (Inr u, past')"
  shows "\<exists>slug doc body data line.
           derived_slug page i = Inr slug \<and>
           past' = past @ [FilesCopy (GOOGLE_TEMPLATE_DOC_ID cfg)
                             (PDict [(''name'', PStr (''PDF_'' @ slug)),
                                     (''mimeType'', PStr ''application/vnd.google-apps.document'')]),
                           DocumentsBatchUpdate doc body,
                           FilesExportMedia doc ''application/pdf'',
                           WriteBytes (path_child (OUTPUT_DIR cfg) (slug @ ''.pdf'')) data]
                        @ (if DELETE_INTERMEDIATE_DOCS cfg then [FilesDelete doc] else [])
                        @ [Print line]"
proof -
  from assms obtain repl base doc p1 p2 p3 p4 x2 x3 x4 where
    r: "row_to_placeholder_map page = Inr repl" and b: "choose_base_name repl i = Inr base"
    and s1: "copy_template_doc w (GOOGLE_TEMPLATE_DOC_ID cfg) (''PDF_'' @ slugify base) past = (Inr doc, p1)"
    and s2: "replace_placeholders w doc repl p1 = (Inr x2, p2)"
    and s3: "export_pdf w doc (path_div (OUTPUT_DIR cfg) (slugify base @ ''.pdf'')) p2 = (Inr x3, p3)"
    and s4: "(if DELETE_INTERMEDIATE_DOCS cfg
                        then bind_io (perform w (FilesDelete doc)) (\<lambda>_. lift (Inr ()))
                        else lift (Inr ())) p3 = (Inr x4, p4)"
    and s5: "py_print (''['' @ str_int i @ ''/'' @ str_int n @ ''] Saved: ''
               @ path_name (path_div (OUTPUT_DIR cfg) (slugify base @ ''.pdf''))) p4 = (Inr u, past')"
    unfolding process_row_def Let_def bind_io_Inr lift_Inr by blast
  have slug: "derived_slug page i = Inr (slugify base)"
    by (simp add: derived_slug_def r b bind_r_def)
  note e1 = copy_template_doc_ok [OF s1]
  from replace_placeholders_ok [OF s2] obtain body where e2: "p2 = p1 @ [DocumentsBatchUpdate doc body]" ..
  from export_pdf_ok [OF s3] obtain data where
    e3: "p3 = p2 @ [FilesExportMedia doc ''application/pdf'',
                    WriteBytes (path_child (OUTPUT_DIR cfg) (slugify base @ ''.pdf'')) data]"
    by (auto simp: pdf_path_child)
  note e4 = delete_step_ok [OF s4]
  from s5 have e5: "past' = p4 @ [Print (''['' @ str_int i @ ''/'' @ str_int n @ ''] Saved: ''
               @ path_name (path_div (OUTPUT_DIR cfg) (slugify base @ ''.pdf'')))]"
    by (simp add: py_print_def)
  show ?thesis
    apply (rule exI [of _ "slugify base"])
    apply (rule exI [of _ doc])
    apply (rule exI [of _ body])
    apply (rule exI [of _ data])
    apply (rule exI [of _ "''['' @ str_int i @ ''/'' @ str_int n @ ''] Saved: ''
               @ path_name (path_div (OUTPUT_DIR cfg) (slugify base @ ''.pdf''))"])
    apply (simp add: slug e1 e2 e3 e4 e5)
    done
qed

lemma obliging_copy:
  assumes "obliging w"
  shows "\<exists>d doc. w (past @ [FilesCopy f b]) = Inr (Obj (PDict d)) \<and> map_of d ''id'' = Some doc"
  using assms [unfolded obliging_def, rule_format, of past "FilesCopy f b"] by simp

lemma obliging_export:
  assumes "obliging w"
  shows "\<exists>b. w (past @ [FilesExportMedia doc mime]) = Inr (Bytes b)"
  using assms [unfolded obliging_def, rule_format, of past "FilesExportMedia doc mime"] by simp

lemma obliging_any:
  assumes "obliging w"
  shows "\<exists>a. w (past @ [e]) = Inr a"
  using assms [unfolded obliging_def, rule_format, of past e] by (cases e) auto

lemma copy_template_doc_total:
  assumes "obliging w" and "t \<noteq> []"
  shows "\<exists>doc. copy_template_doc w t title past =
           (Inr doc, past @ [FilesCopy t (PDict [(''name'', PStr title),
                           (''mimeType'', PStr ''application/vnd.google-apps.document'')])])"
proof -
  from obliging_copy [OF assms(1)] obtain d doc where
    "w (past @ [FilesCopy t (PDict [(''name'', PStr title),
                           (''mimeType'', PStr ''application/vnd.google-apps.document'')])])
       = Inr (Obj (PDict d))" and "map_of d ''id'' = Some doc" by blast
  then show ?thesis
    using assms(2) by (simp add: copy_template_doc_def bind_io_def perform_def lift_def)
qed

lemma replace_placeholders_total:
  assumes "obliging w"
  shows "\<exists>body. replace_placeholders w doc repl past = (Inr (), past @ [DocumentsBatchUpdate doc body])"
proof -
  define body where "body = PDict [(''requests'', PList (map (\<lambda>item. PDict [(''replaceAllText'',
                   PDict [(''containsText'', PDict [(''text'', PStr (fst item)), (''matchCase'', PBool True)]),
                          (''replaceText'', snd item)])]) repl))]"
  from obliging_any [OF assms] obtain a where "w (past @ [DocumentsBatchUpdate doc body]) = Inr a" by blast
  then have "replace_placeholders w doc repl past = (Inr (), past @ [DocumentsBatchUpdate doc body])"
    by (simp add: replace_placeholders_def Let_def bind_io_def perform_def lift_def body_def)
  then show ?thesis by blast
qed

lemma export_pdf_total:
  assumes "obliging w"
  shows "\<exists>data. export_pdf w doc out_path past =
           (Inr (), past @ [FilesExportMedia doc ''application/pdf'', WriteBytes out_path data])"
proof -
  from obliging_export [OF assms] obtain b where
    b: "w (past @ [FilesExportMedia doc ''application/pdf'']) = Inr (Bytes b)" by blast
  from obliging_any [OF assms] obtain a where
    a: "w ((past @ [FilesExportMedia doc ''application/pdf'']) @ [WriteBytes out_path b]) = Inr a" by blast
  have "export_pdf w doc out_path past =
           (Inr (), past @ [FilesExportMedia doc ''application/pdf'', WriteBytes out_path b])"
    using a b by (simp add: export_pdf_def bind_io_def perform_def lift_def)
  then show ?thesis by blast
qed

lemma delete_step_total:
  assumes "obliging w"
  shows "(if flag then bind_io (perform w (FilesDelete doc)) (\<lambda>_. lift (Inr ())) else lift (Inr ())) past
           = (Inr (), past @ (if flag then [FilesDelete doc] else []))"
proof (cases flag)
  case True
  from obliging_any [OF assms] obtain a where "w (past @ [FilesDelete doc]) = Inr a" by blast
  then show ?thesis using True by (simp add: bind_io_def perform_def lift_def)
next
  case False
  then show ?thesis by (simp add: lift_def)
qed

lemma process_row_total:
  assumes ob: "obliging w" and t: "GOOGLE_TEMPLATE_DOC_ID cfg \<noteq> []"
    and sl: "derived_slug page i = Inr slug"
  shows "\<exists>doc body data line.
           process_row cfg w i n page past =
             (Inr (), past @ [FilesCopy (GOOGLE_TEMPLATE_DOC_ID cfg)
                             (PDict [(''name'', PStr (''PDF_'' @ slug)),
                                     (''mimeType'', PStr ''application/vnd.google-apps.document'')]),
                           DocumentsBatchUpdate doc body,
                           FilesExportMedia doc ''application/pdf'',
                           WriteBytes (path_child (OUTPUT_DIR cfg) (slug @ ''.pdf'')) data]
                        @ (if DELETE_INTERMEDIATE_DOCS cfg then [FilesDelete doc] else [])
                        @ [Print line])"
proof -
  from sl obtain repl base where r: "row_to_placeholder_map page = Inr repl"
    and b: "choose_base_name repl i = Inr base" and s: "slug = slugify base"
    by (auto simp: derived_slug_def bind_r_def split: sum.splits)
  define p0 where "p0 = past"
  define title where "title = ''PDF_'' @ slugify base"
  define out where "out = path_child (OUTPUT_DIR cfg) (slugify base @ ''.pdf'')"
  define p1 where "p1 = p0 @ [FilesCopy (GOOGLE_TEMPLATE_DOC_ID cfg) (PDict [(''name'', PStr title),
                           (''mimeType'', PStr ''application/vnd.google-apps.document'')])]"
  from copy_template_doc_total [OF ob t] obtain doc where
    s1: "copy_template_doc w (GOOGLE_TEMPLATE_DOC_ID cfg) title p0 = (Inr doc, p1)"
    unfolding p1_def by blast
  from replace_placeholders_total [OF ob] obtain body where
    s2: "replace_placeholders w doc repl p1 = (Inr (), p1 @ [DocumentsBatchUpdate doc body])" by blast
  define p2 where "p2 = p1 @ [DocumentsBatchUpdate doc body]"
  from export_pdf_total [OF ob] obtain data where
    s3: "export_pdf w doc out p2 =
           (Inr (), p2 @ [FilesExportMedia doc ''application/pdf'', WriteBytes out data])" by blast
  define p3 where "p3 = p2 @ [FilesExportMedia doc ''application/pdf'', WriteBytes out data]"
  define p4 where "p4 = p3 @ (if DELETE_INTERMEDIATE_DOCS cfg then [FilesDelete doc] else [])"
  have s4: "(if DELETE_INTERMEDIATE_DOCS cfg
               then bind_io (perform w (FilesDelete doc)) (\<lambda>_. lift (Inr ()))
               else lift (Inr ())) p3 = (Inr (), p4)"
    unfolding p4_def by (rule delete_step_total [OF ob])
  define line where "line = ''['' @ str_int i @ ''/'' @ str_int n @ ''] Saved: '' @ slugify base @ ''.pdf''"
  have o: "path_div (OUTPUT_DIR cfg) (slugify base @ ''.pdf'') = out"
    by (simp add: out_def pdf_path_child)
  have n: "path_name out = slugify base @ ''.pdf''"
    by (simp add: out_def pdf_path_name)
  have l0: "lift (row_to_placeholder_map page) p0 = (Inr repl, p0)" by (simp add: lift_def r)
  have l1: "lift (choose_base_name repl i) p0 = (Inr base, p0)" by (simp add: lift_def b)
  have "process_row cfg w i n page p0 = (Inr (), p4 @ [Print line])"
    unfolding process_row_def Let_def
    apply (subst bind_io_step [where m = "lift (row_to_placeholder_map page)" and past = p0, OF l0])
    apply (subst bind_io_step [where m = "lift (choose_base_name repl i)" and past = p0, OF l1])
    apply (unfold o n title_def [symmetric])
    apply (subst bind_io_step [where m = "copy_template_doc w (GOOGLE_TEMPLATE_DOC_ID cfg) title"
                                 and past = p0, OF s1])
    apply (subst bind_io_step [where m = "replace_placeholders w doc repl" and past = p1,
                               OF s2 [folded p2_def]])
    apply (subst bind_io_step [where m = "export_pdf w doc out" and past = p2, OF s3 [folded p3_def]])
    apply (subst bind_io_step [where past = p3 and m = "if DELETE_INTERMEDIATE_DOCS cfg
               then bind_io (perform w (FilesDelete doc)) (\<lambda>_. lift (Inr ()))
               else lift (Inr ())", OF s4])
    apply (simp add: py_print_def line_def)
    done
  then show ?thesis
    unfolding p4_def p3_def p2_def p1_def p0_def title_def out_def s by auto
qed

lemma map_filter_append: "List.map_filter f (xs @ ys) = List.map_filter f xs @ List.map_filter f ys"
  by (simp add: List.map_filter_def)

lemma process_rows_total:
  assumes ob: "obliging w" and t: "GOOGLE_TEMPLATE_DOC_ID cfg \<noteq> []"
    and sl: "row_slugs i rows = Inr slugs"
  shows "\<exists>new. process_rows cfg w i n rows past = (Inr (), past @ new)
           \<and> List.map_filter copied_title new = map (\<lambda>slug. PStr (''PDF_'' @ slug)) slugs
           \<and> List.map_filter written_path new
               = map (\<lambda>slug. path_child (OUTPUT_DIR cfg) (slug @ ''.pdf'')) slugs"
  using sl
proof (induction rows arbitrary: i past slugs)
  case Nil
  then show ?case by (simp add: lift_def List.map_filter_simps)
next
  case (Cons page pages)
  from Cons.prems obtain slug rest where s: "derived_slug page i = Inr slug"
    and r: "row_slugs (i + 1) pages = Inr rest" and sl: "slugs = slug # rest"
    by (auto simp: bind_r_def split: sum.splits)
  from process_row_total [OF ob t s, of n past] obtain doc body data line where
    row: "process_row cfg w i n page past =
             (Inr (), past @ [FilesCopy (GOOGLE_TEMPLATE_DOC_ID cfg)
                             (PDict [(''name'', PStr (''PDF_'' @ slug)),
                                     (''mimeType'', PStr ''application/vnd.google-apps.document'')]),
                           DocumentsBatchUpdate doc body,
                           FilesExportMedia doc ''application/pdf'',
                           WriteBytes (path_child (OUTPUT_DIR cfg) (slug @ ''.pdf'')) data]
                        @ (if DELETE_INTERMEDIATE_DOCS cfg then [FilesDelete doc] else [])
                        @ [Print line])" by blast
  define first where "first = [FilesCopy (GOOGLE_TEMPLATE_DOC_ID cfg)
                             (PDict [(''name'', PStr (''PDF_'' @ slug)),
                                     (''mimeType'', PStr ''application/vnd.google-apps.document'')]),
                           DocumentsBatchUpdate doc body,
                           FilesExportMedia doc ''application/pdf'',
                           WriteBytes (path_child (OUTPUT_DIR cfg) (slug @ ''.pdf'')) data]
                        @ (if DELETE_INTERMEDIATE_DOCS cfg then [FilesDelete doc] else [])
                        @ [Print line]"
  have row': "process_row cfg w i n page past = (Inr (), past @ first)"
    using row by (simp add: first_def)
  have ft: "List.map_filter copied_title first = [PStr (''PDF_'' @ slug)]"
    by (simp add: first_def List.map_filter_simps)
  have fp: "List.map_filter written_path first = [path_child (OUTPUT_DIR cfg) (slug @ ''.pdf'')]"
    by (simp add: first_def List.map_filter_simps)
  from Cons.IH [OF r, of "past @ first"] obtain new where
    rest: "process_rows cfg w (i + 1) n pages (past @ first) = (Inr (), (past @ first) @ new)"
    and nt: "List.map_filter copied_title new = map (\<lambda>slug. PStr (''PDF_'' @ slug)) rest"
    and np: "List.map_filter written_path new
               = map (\<lambda>slug. path_child (OUTPUT_DIR cfg) (slug @ ''.pdf'')) rest" by blast
  have "process_rows cfg w i n (page # pages) past = (Inr (), past @ (first @ new))"
    by (simp add: bind_io_def row' rest)
  moreover have "List.map_filter copied_title (first @ new) = map (\<lambda>slug. PStr (''PDF_'' @ slug)) slugs"
    by (simp add: map_filter_append ft nt sl)
  moreover have "List.map_filter written_path (first @ new)
               = map (\<lambda>slug. path_child (OUTPUT_DIR cfg) (slug @ ''.pdf'')) slugs"
    by (simp add: map_filter_append fp np sl)
  ultimately show ?case by blast
qed

text \<open>
  Claim C9. A row that is processed without an exception copies the template once, under
  the title \<^verbatim>\<open>PDF_\<close> followed by its slug, and writes one file, named by the slug
  followed by \<^verbatim>\<open>.pdf\<close>, in \<^verbatim>\<open>OUTPUT_DIR\<close>: both depend on the slug alone. When the
  outside answers every call, a run over rows that have slugs ends without an exception
  whatever was written before, and its titles and paths are those of the slugs in order;
  so rows with the same slug, at any places, get the same title and the same path, and
  the later one is written over the earlier one.
\<close>

theorem equal_slugs_same_title_and_path:
  "(process_row cfg w i n page past = (Inr u, past') \<longrightarrow>
      (\<exists>slug. derived_slug page i = Inr slug
         \<and> List.map_filter copied_title (drop (length past) past') = [PStr (''PDF_'' @ slug)]
         \<and> List.map_filter written_path (drop (length past) past')
             = [path_child (OUTPUT_DIR cfg) (slug @ ''.pdf'')]))
   \<and> (obliging w \<and> GOOGLE_TEMPLATE_DOC_ID cfg \<noteq> [] \<and> row_slugs k rows = Inr slugs \<longrightarrow>
      (\<exists>new. process_rows cfg w k m rows earlier = (Inr (), earlier @ new)
         \<and> List.map_filter copied_title new = map (\<lambda>slug. PStr (''PDF_'' @ slug)) slugs
         \<and> List.map_filter written_path new
             = map (\<lambda>slug. path_child (OUTPUT_DIR cfg) (slug @ ''.pdf'')) slugs))"
proof (intro conjI impI)
  assume "process_row cfg w i n page past = (Inr u, past')"
  from process_row_ok [OF this] obtain slug doc body data line where
    a: "derived_slug page i = Inr slug" and
    b: "past' = past @ [FilesCopy (GOOGLE_TEMPLATE_DOC_ID cfg)
                             (PDict [(''name'', PStr (''PDF_'' @ slug)),
                                     (''mimeType'', PStr ''application/vnd.google-apps.document'')]),
                           DocumentsBatchUpdate doc body,
                           FilesExportMedia doc ''application/pdf'',
                           WriteBytes (path_child (OUTPUT_DIR cfg) (slug @ ''.pdf'')) data]
                        @ (if DELETE_INTERMEDIATE_DOCS cfg then [FilesDelete doc] else [])
                        @ [Print line]" by blast
  show "\<exists>slug. derived_slug page i = Inr slug
         \<and> List.map_filter copied_title (drop (length past) past') = [PStr (''PDF_'' @ slug)]
         \<and> List.map_filter written_path (drop (length past) past')
             = [path_child (OUTPUT_DIR cfg) (slug @ ''.pdf'')]"
    apply (rule exI [of _ slug])
    apply (simp add: a b List.map_filter_simps)
    done
next
  assume "obliging w \<and> GOOGLE_TEMPLATE_DOC_ID cfg \<noteq> [] \<and> row_slugs k rows = Inr slugs"
  then show "\<exists>new. process_rows cfg w k m rows earlier = (Inr (), earlier @ new)
         \<and> List.map_filter copied_title new = map (\<lambda>slug. PStr (''PDF_'' @ slug)) slugs
         \<and> List.map_filter written_path new
             = map (\<lambda>slug. path_child (OUTPUT_DIR cfg) (slug @ ''.pdf'')) slugs"
    using process_rows_total by blast
qed

text \<open>
  Claim C7. When the clients are built and the fetch returns no row, \<^verbatim>\<open>main\<close> ends with
  the fatal error \<^verbatim>\<open>No rows found in Notion database.\<close> after the requests of the
  fetch and with no effect at all: no copy, no substitution, no export, no file.
\<close>

theorem empty_rows_abort_before_rendering:
  assumes "google_clients_from_token_json cfg rt = Inr u"
    and "fetch_all_notion_rows cfg (NOTION_DATABASE_ID cfg) script = Some (Inr [], sent, rest)"
  shows "main cfg rt script w = Some (Inl (SystemExit ''ERROR: No rows found in Notion database.''), sent, [])"
  using assms by (simp add: main_def die_def)

lemma obliging_demo_world: "obliging demo_world"
  unfolding obliging_def
proof (intro allI)
  fix past e
  show "case e of
          FilesCopy file_id body \<Rightarrow>
            (\<exists>d doc. demo_world (past @ [e]) = Inr (Obj (PDict d)) \<and> map_of d ''id'' = Some doc)
        | FilesExportMedia doc mime \<Rightarrow> (\<exists>b. demo_world (past @ [e]) = Inr (Bytes b))
        | _ \<Rightarrow> (\<exists>a. demo_world (past @ [e]) = Inr a)"
    by (cases e) (simp_all add: demo_world_def)
qed

lemma demo_slugs: "row_slugs 1 [demo_row ''Acme!'', demo_row '' Acme''] = Inr [''Acme'', ''Acme'']"
  by code_simp

lemma demo_run1:
  "fst (process_row demo_cfg demo_world 5 9 (demo_row '' Acme'')
          [WriteBytes (Path [] [''out_pdfs'', ''Acme.pdf'']) ''old'']) = Inr ()"
  by code_simp

theorem equal_slugs_same_title_and_path_witness:
  "row_slugs 1 [demo_row ''Acme!'', demo_row '' Acme''] = Inr [''Acme'', ''Acme'']
   \<and> fst (process_rows demo_cfg demo_world 1 2 [demo_row ''Acme!'', demo_row '' Acme''] []) = Inr ()
   \<and> List.map_filter copied_title
        (snd (process_rows demo_cfg demo_world 1 2 [demo_row ''Acme!'', demo_row '' Acme''] []))
       = [PStr ''PDF_Acme'', PStr ''PDF_Acme'']
   \<and> List.map_filter written_path
        (snd (process_rows demo_cfg demo_world 1 2 [demo_row ''Acme!'', demo_row '' Acme''] []))
       = [Path [] [''out_pdfs'', ''Acme.pdf''], Path [] [''out_pdfs'', ''Acme.pdf'']]
   \<and> fst (process_row demo_cfg demo_world 5 9 (demo_row '' Acme'')
          [WriteBytes (Path [] [''out_pdfs'', ''Acme.pdf'']) ''old'']) = Inr ()
   \<and> List.map_filter written_path
        (drop 1 (snd (process_row demo_cfg demo_world 5 9 (demo_row '' Acme'')
          [WriteBytes (Path [] [''out_pdfs'', ''Acme.pdf'']) ''old''])))
       = [Path [] [''out_pdfs'', ''Acme.pdf'']]"
proof -
  have t: "GOOGLE_TEMPLATE_DOC_ID demo_cfg \<noteq> []" by (simp add: demo_cfg_def)
  have o: "OUTPUT_DIR demo_cfg = Path [] [''out_pdfs'']" by (simp add: demo_cfg_def)
  from equal_slugs_same_title_and_path [THEN conjunct2, rule_format, of demo_world demo_cfg 1
        "[demo_row ''Acme!'', demo_row '' Acme'']" "[''Acme'', ''Acme'']" 2 "[]"]
    obliging_demo_world t demo_slugs
  obtain new where
    "process_rows demo_cfg demo_world 1 2 [demo_row ''Acme!'', demo_row '' Acme''] [] = (Inr (), new)"
    and "List.map_filter copied_title new = [PStr ''PDF_Acme'', PStr ''PDF_Acme'']"
    and "List.map_filter written_path new
           = [Path [] [''out_pdfs'', ''Acme.pdf''], Path [] [''out_pdfs'', ''Acme.pdf'']]"
    by (auto simp: o)
  then have rows: "fst (process_rows demo_cfg demo_world 1 2 [demo_row ''Acme!'', demo_row '' Acme''] []) = Inr ()"
    "List.map_filter copied_title
        (snd (process_rows demo_cfg demo_world 1 2 [demo_row ''Acme!'', demo_row '' Acme''] []))
       = [PStr ''PDF_Acme'', PStr ''PDF_Acme'']"
    "List.map_filter written_path
        (snd (process_rows demo_cfg demo_world 1 2 [demo_row ''Acme!'', demo_row '' Acme''] []))
       = [Path [] [''out_pdfs'', ''Acme.pdf''], Path [] [''out_pdfs'', ''Acme.pdf'']]"
    by simp_all
  have r1: "process_row demo_cfg demo_world 5 9 (demo_row '' Acme'')
          [WriteBytes (Path [] [''out_pdfs'', ''Acme.pdf'']) ''old'']
        = (Inr (), snd (process_row demo_cfg demo_world 5 9 (demo_row '' Acme'')
          [WriteBytes (Path [] [''out_pdfs'', ''Acme.pdf'']) ''old'']))"
    using demo_run1 by (metis prod.collapse)
  have s: "derived_slug (demo_row '' Acme'') 5 = Inr ''Acme''" by code_simp
  from equal_slugs_same_title_and_path [THEN conjunct1, rule_format, OF r1] s
  have one: "List.map_filter written_path
        (drop 1 (snd (process_row demo_cfg demo_world 5 9 (demo_row '' Acme'')
          [WriteBytes (Path [] [''out_pdfs'', ''Acme.pdf'']) ''old''])))
       = [Path [] [''out_pdfs'', ''Acme.pdf'']]"
    by (auto simp: o)
  show ?thesis using demo_slugs rows demo_run1 one by simp
qed

lemma space_lower: "is_space c \<Longrightarrow> lower_char c = c"
  by (auto simp: is_space_def lower_char_def Let_def)

lemma enabling_chars:
  "\<not> is_space (CHR ''1'')" "\<not> is_space (CHR ''t'')" "\<not> is_space (CHR ''y'')"
  "\<not> is_space (CHR ''e'')" "\<not> is_space (CHR ''s'')"
  by (simp_all add: is_space_def code_point_def)

lemma lower_default: "py_lower ''true'' = ''true''"
  by (simp add: py_lower_def lower_char_def code_point_def)

lemma lower_on: "py_lower ''on'' = ''on''"
  by (simp add: py_lower_def lower_char_def code_point_def)

lemma edge_space_disables:
  assumes "v \<noteq> []" and "is_space (hd v) \<or> is_space (last v)"
  shows "py_lower v \<noteq> ''1'' \<and> py_lower v \<noteq> ''true'' \<and> py_lower v \<noteq> ''yes''"
proof -
  have h: "hd (py_lower v) = lower_char (hd v)" using assms(1) by (simp add: py_lower_def hd_map)
  have l: "last (py_lower v) = lower_char (last v)" using assms(1) by (simp add: py_lower_def last_map)
  from assms(2) show ?thesis
  proof
    assume sp: "is_space (hd v)"
    then have "is_space (hd (py_lower v))" by (simp add: h space_lower)
    then show ?thesis using enabling_chars by auto
  next
    assume sp: "is_space (last v)"
    then have "is_space (last (py_lower v))" by (simp add: l space_lower)
    then show ?thesis using enabling_chars by auto
  qed
qed

lemma last_dropWhile: "dropWhile P xs \<noteq> [] \<Longrightarrow> last (dropWhile P xs) = last xs"
  by (induction xs) auto

lemma strip_ends:
  "py_strip s = [] \<or> (\<not> is_space (hd (py_strip s)) \<and> \<not> is_space (last (py_strip s)))"
proof (cases "py_strip s = []")
  case True
  then show ?thesis by simp
next
  case False
  define t where "t = dropWhile is_space s"
  define u where "u = dropWhile is_space (rev t)"
  have ps: "py_strip s = rev u" by (simp add: py_strip_def t_def u_def)
  from False have u: "u \<noteq> []" by (simp add: ps)
  then have t: "t \<noteq> []" by (auto simp: u_def)
  have "\<not> is_space (hd u)" using u unfolding u_def by (rule hd_dropWhile)
  then have l: "\<not> is_space (last (py_strip s))" using u by (simp add: ps last_rev)
  have "last u = last (rev t)" using u unfolding u_def by (rule last_dropWhile)
  then have "hd (py_strip s) = hd t" using u t by (simp add: ps hd_rev last_rev)
  moreover have "\<not> is_space (hd t)" using t unfolding t_def by (rule hd_dropWhile)
  ultimately show ?thesis using l by simp
qed

lemma dropWhile_all: "\<forall>c\<in>set a. P c \<Longrightarrow> dropWhile P (a @ v) = dropWhile P v"
  by (induction a) auto

lemma strip_padding:
  assumes "\<forall>c\<in>set a \<union> set b. is_space c"
  shows "py_strip (a @ v @ b) = py_strip v"
proof -
  have a: "\<forall>c\<in>set a. is_space c" and b: "\<forall>c\<in>set (rev b). is_space c" using assms by auto
  have 1: "dropWhile is_space (a @ v @ b) = dropWhile is_space (v @ b)"
    using a by (rule dropWhile_all)
  show ?thesis
  proof (cases "\<forall>c\<in>set v. is_space c")
    case True
    have x: "dropWhile is_space (v @ b) = []"
      using True assms by (auto simp: dropWhile_eq_Nil_conv)
    have y: "dropWhile is_space v = []"
      using True by (auto simp: dropWhile_eq_Nil_conv)
    show ?thesis unfolding py_strip_def 1 x y by simp
  next
    case False
    then obtain x where "x \<in> set v" "\<not> is_space x" by blast
    then have "dropWhile is_space (v @ b) = dropWhile is_space v @ b"
      by (rule dropWhile_append1)
    then have "rev (dropWhile is_space (v @ b)) = rev b @ rev (dropWhile is_space v)" by simp
    then have "dropWhile is_space (rev (dropWhile is_space (v @ b)))
                 = dropWhile is_space (rev (dropWhile is_space v))"
      using dropWhile_all [OF b] by simp
    then show ?thesis by (simp add: py_strip_def 1)
  qed
qed

lemma padding_trimmed:
  assumes "name \<in> set trimmed_vars" and "\<forall>c\<in>set a \<union> set b. is_space c"
  shows "trimmed_settings (load_config (environ(name \<mapsto> a @ v @ b)))
           = trimmed_settings (load_config (environ(name \<mapsto> v)))"
proof -
  from assms(1) have "name = ''NOTION_TOKEN'' \<or> name = ''NOTION_DATABASE_ID''
      \<or> name = ''GOOGLE_TEMPLATE_DOC_ID'' \<or> name = ''GOOGLE_TOKEN_JSON'' \<or> name = ''NOTION_VERSION''"
    by (simp add: trimmed_vars_def)
  then show ?thesis
    by (elim disjE)
       (simp_all add: trimmed_settings_def load_config_def getenv_def strip_padding [OF assms(2)])
qed

lemma trimmed_ends:
  assumes "s \<in> set (trimmed_settings (load_config environ))"
  shows "s = [] \<or> (\<not> is_space (hd s) \<and> \<not> is_space (last s))"
  using assms strip_ends by (auto simp: trimmed_settings_def load_config_def)

text \<open>
  Claim C10, as amended. The cleanup toggle is on when \<^verbatim>\<open>DELETE_INTERMEDIATE_DOCS\<close> is
  not set, and otherwise exactly when the value in lower case is \<^verbatim>\<open>1\<close>, \<^verbatim>\<open>true\<close> or
  \<^verbatim>\<open>yes\<close>. The value is not trimmed: one that starts or ends with whitespace turns
  the toggle off, and so does \<^verbatim>\<open>on\<close>; loading the configuration cannot fail. A
  processed row deletes its document exactly when the toggle is on. The token, the two identifiers,
  the token bundle and the version are trimmed: whitespace around their values changes
  nothing and none is left at their ends. \<^verbatim>\<open>OUTPUT_DIR\<close> is read as a path from the
  untrimmed value.
\<close>

theorem cleanup_toggle_values:
  "DELETE_INTERMEDIATE_DOCS (load_config environ) =
     (case environ ''DELETE_INTERMEDIATE_DOCS'' of
        None \<Rightarrow> True
      | Some v \<Rightarrow> py_lower v = ''1'' \<or> py_lower v = ''true'' \<or> py_lower v = ''yes'')
   \<and> (environ ''DELETE_INTERMEDIATE_DOCS'' = Some v \<and> v \<noteq> [] \<and> (is_space (hd v) \<or> is_space (last v))
        \<longrightarrow> \<not> DELETE_INTERMEDIATE_DOCS (load_config environ))
   \<and> (environ ''DELETE_INTERMEDIATE_DOCS'' = Some ''on'' \<longrightarrow> \<not> DELETE_INTERMEDIATE_DOCS (load_config environ))
   \<and> (process_row cfg w i n page past = (Inr u, past') \<longrightarrow>
        (List.map_filter deleted_doc (drop (length past) past') \<noteq> []) = DELETE_INTERMEDIATE_DOCS cfg)
   \<and> (name \<in> set trimmed_vars \<and> (\<forall>c\<in>set a \<union> set b. is_space c) \<longrightarrow>
        trimmed_settings (load_config (environ(name \<mapsto> a @ x @ b)))
          = trimmed_settings (load_config (environ(name \<mapsto> x))))
   \<and> (\<forall>s\<in>set (trimmed_settings (load_config environ)).
          s = [] \<or> (\<not> is_space (hd s) \<and> \<not> is_space (last s)))
   \<and> OUTPUT_DIR (load_config environ) = py_path (getenv environ ''OUTPUT_DIR'' ''out_pdfs'')"
proof -
  have t: "DELETE_INTERMEDIATE_DOCS (load_config environ) =
     (case environ ''DELETE_INTERMEDIATE_DOCS'' of
        None \<Rightarrow> True
      | Some v \<Rightarrow> py_lower v = ''1'' \<or> py_lower v = ''true'' \<or> py_lower v = ''yes'')"
    by (simp add: load_config_def getenv_def lower_default split: option.splits)
  have e: "\<not> DELETE_INTERMEDIATE_DOCS (load_config environ)"
    if "environ ''DELETE_INTERMEDIATE_DOCS'' = Some v \<and> v \<noteq> [] \<and> (is_space (hd v) \<or> is_space (last v))"
    using that edge_space_disables [of v] by (simp add: t)
  have on: "\<not> DELETE_INTERMEDIATE_DOCS (load_config environ)"
    if "environ ''DELETE_INTERMEDIATE_DOCS'' = Some ''on''"
    using that by (simp add: t lower_on)
  have d: "(List.map_filter deleted_doc (drop (length past) past') \<noteq> []) = DELETE_INTERMEDIATE_DOCS cfg"
    if "process_row cfg w i n page past = (Inr u, past')"
    using process_row_ok [OF that]
    by (cases "DELETE_INTERMEDIATE_DOCS cfg") (auto simp: List.map_filter_simps)
  have p: "trimmed_settings (load_config (environ(name \<mapsto> a @ x @ b)))
          = trimmed_settings (load_config (environ(name \<mapsto> x)))"
    if "name \<in> set trimmed_vars \<and> (\<forall>c\<in>set a \<union> set b. is_space c)"
    using that padding_trimmed by blast
  have o: "OUTPUT_DIR (load_config environ) = py_path (getenv environ ''OUTPUT_DIR'' ''out_pdfs'')"
    by (simp add: load_config_def)
  from t e on d p trimmed_ends o show ?thesis by blast
qed

theorem output_dir_not_trimmed_counterexample:
  "OUTPUT_DIR (load_config [''OUTPUT_DIR'' \<mapsto> '' out '']) = Path [] ['' out '']
   \<and> path_str (OUTPUT_DIR (load_config [''OUTPUT_DIR'' \<mapsto> '' out ''])) = '' out ''
   \<and> py_strip '' out '' = ''out''"
  by (simp add: load_config_def getenv_def py_path_def py_strip_def is_space_def code_point_def)

theorem empty_rows_abort_before_rendering_witness:
  "google_clients_from_token_json demo_cfg demo_runtime = Inr ()
   \<and> fetch_all_notion_rows demo_cfg (NOTION_DATABASE_ID demo_cfg) [Inr (demo_page [] False PNone)]
       = Some (Inr [], [notion_request demo_cfg ''db1'' PNone], [])
   \<and> main demo_cfg demo_runtime [Inr (demo_page [] False PNone)] demo_world
       = Some (Inl (SystemExit ''ERROR: No rows found in Notion database.''),
               [notion_request demo_cfg ''db1'' PNone], [])"
proof -
  have g: "google_clients_from_token_json demo_cfg demo_runtime = Inr ()"
    by (simp add: google_clients_from_token_json_def demo_cfg_def demo_runtime_def bind_r_def)
  have f: "fetch_all_notion_rows demo_cfg (NOTION_DATABASE_ID demo_cfg) [Inr (demo_page [] False PNone)]
       = Some (Inr [], [notion_request demo_cfg ''db1'' PNone], [])"
    by (simp add: fetch_all_notion_rows_def demo_cfg_def demo_page_def bind_r_def dict_get_def)
  from empty_rows_abort_before_rendering [OF g f] g f show ?thesis by simp
qed

lemma demo_run2: "fst (process_row demo_cfg demo_world 1 2 (demo_row ''Acme!'') []) = Inr ()"
  by code_simp

lemma demo_deleted:
  "List.map_filter deleted_doc (snd (process_row demo_cfg demo_world 1 2 (demo_row ''Acme!'') []))
     = [PStr ''doc'']"
  by code_simp

lemma demo_lower: "py_lower ''TRUE'' = ''true''" "py_lower ''Yes'' = ''yes''"
  by code_simp+

lemma demo_token:
  "NOTION_TOKEN (load_config [''NOTION_TOKEN'' \<mapsto> '' secret '']) = ''secret''"
  by (simp add: load_config_def getenv_def py_strip_def is_space_def code_point_def)

theorem cleanup_toggle_values_witness:
  "DELETE_INTERMEDIATE_DOCS (load_config Map.empty)
   \<and> DELETE_INTERMEDIATE_DOCS (load_config [''DELETE_INTERMEDIATE_DOCS'' \<mapsto> ''TRUE''])
   \<and> DELETE_INTERMEDIATE_DOCS (load_config [''DELETE_INTERMEDIATE_DOCS'' \<mapsto> ''Yes''])
   \<and> \<not> DELETE_INTERMEDIATE_DOCS (load_config [''DELETE_INTERMEDIATE_DOCS'' \<mapsto> ''on''])
   \<and> is_space (hd '' true'')
   \<and> \<not> DELETE_INTERMEDIATE_DOCS (load_config [''DELETE_INTERMEDIATE_DOCS'' \<mapsto> '' true''])
   \<and> fst (process_row demo_cfg demo_world 1 2 (demo_row ''Acme!'') []) = Inr ()
   \<and> DELETE_INTERMEDIATE_DOCS demo_cfg
   \<and> List.map_filter deleted_doc (snd (process_row demo_cfg demo_world 1 2 (demo_row ''Acme!'') []))
       = [PStr ''doc'']
   \<and> ''NOTION_TOKEN'' \<in> set trimmed_vars
   \<and> is_space (CHR '' '')
   \<and> NOTION_TOKEN (load_config [''NOTION_TOKEN'' \<mapsto> '' secret '']) = ''secret''
   \<and> trimmed_settings (load_config [''NOTION_TOKEN'' \<mapsto> '' secret ''])
       = trimmed_settings (load_config [''NOTION_TOKEN'' \<mapsto> ''secret''])
   \<and> OUTPUT_DIR (load_config [''OUTPUT_DIR'' \<mapsto> ''./out_pdfs/'']) = Path [] [''out_pdfs'']"
proof -
  have r1: "process_row demo_cfg demo_world 1 2 (demo_row ''Acme!'') []
              = (Inr (), snd (process_row demo_cfg demo_world 1 2 (demo_row ''Acme!'') []))"
    using demo_run2 by (metis prod.collapse)
  have sp: "is_space (hd '' true'')" "is_space (CHR '' '')" by (simp_all add: is_space_def code_point_def)
  have dc: "DELETE_INTERMEDIATE_DOCS demo_cfg" by (simp add: demo_cfg_def)
  have tv: "''NOTION_TOKEN'' \<in> set trimmed_vars" by (simp add: trimmed_vars_def)
  have a1: "DELETE_INTERMEDIATE_DOCS (load_config Map.empty)"
    using cleanup_toggle_values [of Map.empty, THEN conjunct1] by simp
  have a2: "DELETE_INTERMEDIATE_DOCS (load_config [''DELETE_INTERMEDIATE_DOCS'' \<mapsto> ''TRUE''])"
    using cleanup_toggle_values [of "[''DELETE_INTERMEDIATE_DOCS'' \<mapsto> ''TRUE'']", THEN conjunct1]
    by (simp add: demo_lower)
  have a3: "DELETE_INTERMEDIATE_DOCS (load_config [''DELETE_INTERMEDIATE_DOCS'' \<mapsto> ''Yes''])"
    using cleanup_toggle_values [of "[''DELETE_INTERMEDIATE_DOCS'' \<mapsto> ''Yes'']", THEN conjunct1]
    by (simp add: demo_lower)
  have a4: "\<not> DELETE_INTERMEDIATE_DOCS (load_config [''DELETE_INTERMEDIATE_DOCS'' \<mapsto> ''on''])"
    using cleanup_toggle_values [of "[''DELETE_INTERMEDIATE_DOCS'' \<mapsto> ''on'']",
        THEN conjunct2, THEN conjunct2, THEN conjunct1]
    by simp
  have a5: "\<not> DELETE_INTERMEDIATE_DOCS (load_config [''DELETE_INTERMEDIATE_DOCS'' \<mapsto> '' true''])"
    using cleanup_toggle_values [of "[''DELETE_INTERMEDIATE_DOCS'' \<mapsto> '' true'']" "'' true''",
        THEN conjunct2, THEN conjunct1] sp
    by simp
  have a6: "(List.map_filter deleted_doc
               (drop (length ([] :: effect list))
                  (snd (process_row demo_cfg demo_world 1 2 (demo_row ''Acme!'') []))) \<noteq> [])
            = DELETE_INTERMEDIATE_DOCS demo_cfg"
    using cleanup_toggle_values [of Map.empty "[]" demo_cfg demo_world 1 2 "demo_row ''Acme!''" "[]" "()"
          "snd (process_row demo_cfg demo_world 1 2 (demo_row ''Acme!'') [])",
          THEN conjunct2, THEN conjunct2, THEN conjunct2, THEN conjunct1] r1
    by blast
  have a7: "trimmed_settings (load_config [''NOTION_TOKEN'' \<mapsto> '' secret ''])
       = trimmed_settings (load_config [''NOTION_TOKEN'' \<mapsto> ''secret''])"
    using cleanup_toggle_values [of Map.empty "[]" demo_cfg demo_world 1 2 "demo_row ''Acme!''" "[]" "()" "[]"
          "''NOTION_TOKEN''" "'' ''" "'' ''" "''secret''",
          THEN conjunct2, THEN conjunct2, THEN conjunct2, THEN conjunct2, THEN conjunct1] tv sp
    by simp
  have a8: "OUTPUT_DIR (load_config [''OUTPUT_DIR'' \<mapsto> ''./out_pdfs/'']) = Path [] [''out_pdfs'']"
    using cleanup_toggle_values [of "[''OUTPUT_DIR'' \<mapsto> ''./out_pdfs/'']",
          THEN conjunct2, THEN conjunct2, THEN conjunct2, THEN conjunct2, THEN conjunct2, THEN conjunct2]
    by (simp add: getenv_def py_path_def)
  show ?thesis
    using a1 a2 a3 a4 a5 a6 a7 a8 sp dc tv demo_deleted demo_run2 demo_token by simp
qed

end
